theory Spec2Isabelle
  imports Complex_Main
begin

section \<open>Column labels as strings\<close>

text \<open>
  The table is read with \<^verbatim>\<open>encoding='latin-1'\<close>, so every character of a column label is
  a code point below 256. A label is a \<^typ>\<open>string\<close>; a \<^typ>\<open>char\<close> stands for the Latin-1 code
  point of the same number. \<^verbatim>\<open>str.strip()\<close> removes the characters for which
  \<^verbatim>\<open>str.isspace\<close> holds (tab to carriage return, the four separators 0x1C to 0x1F, the
  space, NEL 0x85 and the no-break space 0xA0); \<^verbatim>\<open>str.lower()\<close> moves the capital letters
  (A to Z, and 0xC0 to 0xDE without the multiplication sign 0xD7) up by 32.
\<close>

definition py_isspace :: "char \<Rightarrow> bool" where
  "py_isspace c =
     (let n = (of_char c :: nat)
      in (9 \<le> n \<and> n \<le> 13) \<or> (28 \<le> n \<and> n \<le> 32) \<or> n = 133 \<or> n = 160)"

definition py_isupper :: "char \<Rightarrow> bool" where
  "py_isupper c =
     (let n = (of_char c :: nat)
      in (65 \<le> n \<and> n \<le> 90) \<or> (192 \<le> n \<and> n \<le> 222 \<and> n \<noteq> 215))"

definition py_lower_char :: "char \<Rightarrow> char" where
  "py_lower_char c = (if py_isupper c then char_of ((of_char c :: nat) + 32) else c)"

definition str_strip :: "string \<Rightarrow> string" where
  "str_strip s = rev (dropWhile py_isspace (rev (dropWhile py_isspace s)))"

definition str_lower :: "string \<Rightarrow> string" where
  "str_lower s = map py_lower_char s"

text \<open>\<^verbatim>\<open>.str.replace(old, new, regex=False)\<close> for a pattern of one character.\<close>

definition str_replace :: "char \<Rightarrow> string \<Rightarrow> string \<Rightarrow> string" where
  "str_replace old new s = concat (map (\<lambda>c. if c = old then new else [c]) s)"

definition standardize_name :: "string \<Rightarrow> string" where
  "standardize_name s =
     str_replace (CHR ''.'') ''_''
       (str_replace (CHR '')'') ''''
         (str_replace (CHR ''('') ''''
           (str_replace (CHR '' '') ''_''
             (str_lower (str_strip s)))))"

text \<open>
  The label as the specification words it: trimmed, lowercased, spaces turned into
  underscores, and parentheses and periods deleted. It is compared with
  \<^const>\<open>standardize_name\<close> below.
\<close>

definition spec_standard_name :: "string \<Rightarrow> string" where
  "spec_standard_name s =
     filter (\<lambda>c. c \<noteq> CHR ''('' \<and> c \<noteq> CHR '')'' \<and> c \<noteq> CHR ''.'')
       (map (\<lambda>c. if c = CHR '' '' then CHR ''_'' else c) (str_lower (str_strip s)))"

section \<open>Tables\<close>

text \<open>
  A data frame is its list of labelled columns, in order; labels may repeat. Every column
  has one dtype: numbers (\<^verbatim>\<open>float64\<close>, \<^verbatim>\<open>int64\<close>; \<open>None\<close> is NaN), Python objects as
  \<^verbatim>\<open>read_csv\<close> produces them (strings, \<open>None\<close> for a missing value), timestamps
  (\<open>None\<close> is NaT) and monthly periods. Numbers are exact rationals: the model has no
  rounding error and no infinities. The number of rows is the length of the columns, which
  is the same for all columns of a table (\<open>wf_frame\<close>); a frame without columns has no rows.
\<close>

datatype error = FileNotFoundError | KeyError | TypeError | AttributeError | ValueError
  | ZeroDivisionError

datatype timestamp = Timestamp (ts_year: int) (ts_month: nat) (ts_day: nat) (ts_nanos: nat)

datatype cell = Null | Num rat | Str string | Ts timestamp | Per int nat

datatype column =
    FloatCol "rat option list"
  | ObjectCol "string option list"
  | DatetimeCol "timestamp option list"
  | PeriodCol "(int \<times> nat) option list"

type_synonym frame = "(string \<times> column) list"

fun cells :: "column \<Rightarrow> cell list" where
  "cells (FloatCol xs) = map (\<lambda>x. case x of None \<Rightarrow> Null | Some v \<Rightarrow> Num v) xs"
| "cells (ObjectCol xs) = map (\<lambda>x. case x of None \<Rightarrow> Null | Some v \<Rightarrow> Str v) xs"
| "cells (DatetimeCol xs) = map (\<lambda>x. case x of None \<Rightarrow> Null | Some v \<Rightarrow> Ts v) xs"
| "cells (PeriodCol xs) = map (\<lambda>x. case x of None \<Rightarrow> Null | Some (y, m) \<Rightarrow> Per y m) xs"

definition col_len :: "column \<Rightarrow> nat" where
  "col_len c = length (cells c)"

definition labels :: "frame \<Rightarrow> string list" where
  "labels df = map fst df"

text \<open>\<^verbatim>\<open>len(df)\<close>\<close>

definition nrows :: "frame \<Rightarrow> nat" where
  "nrows df = (case df of [] \<Rightarrow> 0 | (n, c) # rest \<Rightarrow> col_len c)"

definition wf_frame :: "frame \<Rightarrow> bool" where
  "wf_frame df = list_all (\<lambda>(n, c). col_len c = nrows df) df"

text \<open>The rows, each the list of its cells in column order.\<close>

definition rows_of :: "frame \<Rightarrow> cell list list" where
  "rows_of df = map (\<lambda>i. map (\<lambda>(n, c). cells c ! i) df) [0..<nrows df]"

definition columns_named :: "frame \<Rightarrow> string \<Rightarrow> column list" where
  "columns_named df n = map snd (filter (\<lambda>(m, c). m = n) df)"

text \<open>
  \<^verbatim>\<open>df[label]\<close>: a missing label raises KeyError. A label that occurs several times
  selects a sub-frame instead of a column; every use below (arithmetic, comparison,
  \<^verbatim>\<open>pd.to_datetime\<close>, assignment of the result to one label) fails on a sub-frame, which
  is reported as ValueError.
\<close>

definition series :: "frame \<Rightarrow> string \<Rightarrow> error + column" where
  "series df n =
     (case columns_named df n of
        [] \<Rightarrow> Inl KeyError
      | [c] \<Rightarrow> Inr c
      | c # d # rest \<Rightarrow> Inl ValueError)"

text \<open>
  \<^verbatim>\<open>df[label] = values\<close>: replaces the column (every column) of that label in place,
  or appends a new column at the end.
\<close>

definition setitem :: "frame \<Rightarrow> string \<Rightarrow> column \<Rightarrow> frame" where
  "setitem df n c =
     (if n \<in> set (labels df) then map (\<lambda>(m, old). if m = n then (m, c) else (m, old)) df
      else df @ [(n, c)])"

definition ebind :: "error + 'a \<Rightarrow> ('a \<Rightarrow> error + 'b) \<Rightarrow> error + 'b" where
  "ebind r f = (case r of Inl e \<Rightarrow> Inl e | Inr x \<Rightarrow> f x)"

text \<open>What the functions print, as data.\<close>

datatype msg =
    LoadedMsg nat nat
  | DroppedMsg nat "string list"
  | ConvertedMsg string
  | MissingMsg "(string \<times> nat \<times> rat option) list"
  | NoMissingMsg
  | RemovedMsg nat rat
  | AddedMsg
  | BannerMsg
  | CompleteMsg nat nat

section \<open>data\_cleaning.py\<close>

definition standardize_columns :: "frame \<Rightarrow> frame" where
  "standardize_columns df = map (\<lambda>(n, c). (standardize_name n, c)) df"

definition cols_to_drop :: "string list" where
  "cols_to_drop =
     [''customer_email'', ''customer_password'', ''product_image'',
      ''customer_fname'', ''customer_lname'']"

text \<open>\<^verbatim>\<open>df.drop(columns=ls)\<close> raises KeyError when a label of \<open>ls\<close> is not a column.\<close>

definition frame_drop :: "frame \<Rightarrow> string list \<Rightarrow> error + frame" where
  "frame_drop df ls =
     (if list_ex (\<lambda>l. l \<notin> set (labels df)) ls then Inl KeyError
      else Inr (filter (\<lambda>(n, c). n \<notin> set ls) df))"

definition drop_redundant_columns :: "frame \<Rightarrow> error + (msg list \<times> frame)" where
  "drop_redundant_columns df =
     (let existing_drops = filter (\<lambda>col. col \<in> set (labels df)) cols_to_drop
      in ebind (frame_drop df existing_drops)
           (\<lambda>df'. Inr ([DroppedMsg (length existing_drops) existing_drops], df')))"

text \<open>
  \<^verbatim>\<open>pd.to_datetime(series, errors='coerce')\<close>. How a value is read (which formats, which
  units for a number) is the library's business: it is the parameter \<open>parse\<close>, which
  for a given column maps each non-null value to its timestamp, or to \<open>None\<close> (NaT) when the
  value cannot be read. A timestamp column is returned as it is; a period column is not
  convertible.
\<close>

type_synonym parser = "column \<Rightarrow> cell \<Rightarrow> timestamp option"

definition to_datetime :: "parser \<Rightarrow> column \<Rightarrow> error + column" where
  "to_datetime parse c =
     (case c of
        DatetimeCol ts \<Rightarrow> Inr c
      | PeriodCol ps \<Rightarrow> Inl TypeError
      | _ \<Rightarrow> Inr (DatetimeCol (map (\<lambda>x. case x of Null \<Rightarrow> None | _ \<Rightarrow> parse c x) (cells c))))"

definition date_cols :: "string list" where
  "date_cols = [''order_date_dateorders'', ''shipping_date_dateorders'']"

fun convert_loop :: "parser \<Rightarrow> string list \<Rightarrow> msg list \<times> frame \<Rightarrow> error + (msg list \<times> frame)" where
  "convert_loop parse [] (out, df) = Inr (out, df)"
| "convert_loop parse (col # rest) (out, df) =
     (if col \<in> set (labels df)
      then ebind (series df col) (\<lambda>s.
           ebind (to_datetime parse s) (\<lambda>d.
           convert_loop parse rest (out @ [ConvertedMsg col], setitem df col d)))
      else convert_loop parse rest (out, df))"

definition convert_date_columns :: "parser \<Rightarrow> frame \<Rightarrow> error + (msg list \<times> frame)" where
  "convert_date_columns parse df = convert_loop parse date_cols ([], df)"

text \<open>
  \<^verbatim>\<open>.round(2)\<close>: to the nearest multiple of 1/100, a tie going to the even one.
\<close>

definition round_half_even :: "rat \<Rightarrow> int" where
  "round_half_even y =
     (let f = \<lfloor>y\<rfloor>; r = y - of_int f
      in if r < 1 / 2 then f else if 1 / 2 < r then f + 1 else if even f then f else f + 1)"

definition round2 :: "rat \<Rightarrow> rat" where
  "round2 x = of_int (round_half_even (x * 100)) / 100"

definition null_count :: "column \<Rightarrow> nat" where
  "null_count c = length (filter (\<lambda>x. x = Null) (cells c))"

text \<open>
  \<^verbatim>\<open>missing / len(df) * 100\<close> is a division of a numeric column by a number: on a table
  without rows it gives NaN (every count is 0) and raises nothing.
\<close>

definition missing_pct :: "nat \<Rightarrow> nat \<Rightarrow> rat option" where
  "missing_pct m n = (if n = 0 then None else Some (round2 (of_nat m / of_nat n * 100)))"

definition missing_report :: "frame \<Rightarrow> (string \<times> nat \<times> rat option) list" where
  "missing_report df =
     sort_key (\<lambda>(n, m, p). case p of None \<Rightarrow> 0 | Some v \<Rightarrow> - v)
       (filter (\<lambda>(n, m, p). m > 0)
         (map (\<lambda>(n, c). (n, null_count c, missing_pct (null_count c) (nrows df))) df))"

definition handle_missing_values :: "frame \<Rightarrow> msg list \<times> frame" where
  "handle_missing_values df =
     (let report = missing_report df
      in (if length report > 0 then [MissingMsg report] else [NoMissingMsg], df))"

text \<open>
  \<^verbatim>\<open>df.drop_duplicates()\<close> keeps the rows that no earlier row equals (a null equals a null
  here), in their order.
\<close>

definition first_occurrences :: "'a list \<Rightarrow> nat list" where
  "first_occurrences rs = filter (\<lambda>i. rs ! i \<notin> set (take i rs)) [0..<length rs]"

fun col_take :: "nat list \<Rightarrow> column \<Rightarrow> column" where
  "col_take idx (FloatCol xs) = FloatCol (map (\<lambda>i. xs ! i) idx)"
| "col_take idx (ObjectCol xs) = ObjectCol (map (\<lambda>i. xs ! i) idx)"
| "col_take idx (DatetimeCol xs) = DatetimeCol (map (\<lambda>i. xs ! i) idx)"
| "col_take idx (PeriodCol xs) = PeriodCol (map (\<lambda>i. xs ! i) idx)"

definition drop_duplicates :: "frame \<Rightarrow> frame" where
  "drop_duplicates df =
     (let keep = first_occurrences (rows_of df) in map (\<lambda>(n, c). (n, col_take keep c)) df)"

text \<open>
  \<^verbatim>\<open>removed/initial_rows\<close> divides two Python integers: ZeroDivisionError when the table
  has no rows.
\<close>

definition py_div :: "nat \<Rightarrow> nat \<Rightarrow> error + rat" where
  "py_div a b = (if b = 0 then Inl ZeroDivisionError else Inr (of_nat a / of_nat b))"

definition remove_duplicates :: "frame \<Rightarrow> error + (msg list \<times> frame)" where
  "remove_duplicates df =
     (let initial_rows = nrows df;
          df' = drop_duplicates df;
          removed = initial_rows - nrows df'
      in ebind (py_div removed initial_rows) (\<lambda>q. Inr ([RemovedMsg removed (q * 100)], df')))"

text \<open>
  Arithmetic of two columns, row by row. Two numeric columns give a numeric column, null
  where an operand is null. A quotient by zero is an infinity or NaN in floating point and
  raises nothing; the model has no infinities and writes \<open>None\<close> for it (the only use below
  discards exactly these entries). With a column of strings Python raises TypeError.
  Arithmetic with timestamp or period columns is outside the model, which answers TypeError
  for it as well.
\<close>

definition lift2 :: "(rat \<Rightarrow> rat \<Rightarrow> rat option) \<Rightarrow> rat option \<Rightarrow> rat option \<Rightarrow> rat option" where
  "lift2 f x y = (case (x, y) of (Some a, Some b) \<Rightarrow> f a b | _ \<Rightarrow> None)"

definition col_arith :: "(rat \<Rightarrow> rat \<Rightarrow> rat option) \<Rightarrow> column \<Rightarrow> column \<Rightarrow> error + column" where
  "col_arith f a b =
     (case (a, b) of
        (FloatCol xs, FloatCol ys) \<Rightarrow> Inr (FloatCol (map2 (lift2 f) xs ys))
      | _ \<Rightarrow> Inl TypeError)"

definition col_sub :: "column \<Rightarrow> column \<Rightarrow> error + column" where
  "col_sub a b = col_arith (\<lambda>x y. Some (x - y)) a b"

definition col_div :: "column \<Rightarrow> column \<Rightarrow> error + column" where
  "col_div a b = col_arith (\<lambda>x y. if y = 0 then None else Some (x / y)) a b"

definition col_times :: "column \<Rightarrow> rat \<Rightarrow> error + column" where
  "col_times a k =
     (case a of FloatCol xs \<Rightarrow> Inr (FloatCol (map (map_option (\<lambda>x. x * k)) xs))
      | _ \<Rightarrow> Inl TypeError)"

definition col_round2 :: "column \<Rightarrow> error + column" where
  "col_round2 a =
     (case a of FloatCol xs \<Rightarrow> Inr (FloatCol (map (map_option round2) xs))
      | _ \<Rightarrow> Inl TypeError)"

text \<open>\<^verbatim>\<open>series != 0\<close>: true for every value but the number zero (so true for NaN).\<close>

definition col_ne0 :: "column \<Rightarrow> bool list" where
  "col_ne0 a = map (\<lambda>x. x \<noteq> Num 0) (cells a)"

text \<open>\<^verbatim>\<open>np.where(cond, series, 0)\<close>\<close>

definition np_where0 :: "bool list \<Rightarrow> column \<Rightarrow> error + column" where
  "np_where0 cond a =
     (case a of FloatCol xs \<Rightarrow> Inr (FloatCol (map2 (\<lambda>b x. if b then x else Some 0) cond xs))
      | _ \<Rightarrow> Inl TypeError)"

text \<open>
  The \<^verbatim>\<open>.dt\<close> accessor exists on timestamp columns only (AttributeError otherwise, also
  for a sub-frame and for a period column, which has no \<^verbatim>\<open>to_period\<close>).
\<close>

definition dt :: "frame \<Rightarrow> string \<Rightarrow> error + timestamp option list" where
  "dt df n =
     (case columns_named df n of
        [] \<Rightarrow> Inl KeyError
      | [DatetimeCol ts] \<Rightarrow> Inr ts
      | _ \<Rightarrow> Inl AttributeError)"

definition to_period_M :: "timestamp option list \<Rightarrow> column" where
  "to_period_M ts = PeriodCol (map (map_option (\<lambda>t. (ts_year t, ts_month t))) ts)"

definition dt_year :: "timestamp option list \<Rightarrow> column" where
  "dt_year ts = FloatCol (map (map_option (\<lambda>t. of_int (ts_year t))) ts)"

text \<open>The day of the week of a Gregorian date (0 is Sunday).\<close>

definition day_of_week :: "timestamp \<Rightarrow> nat" where
  "day_of_week t =
     (let m = ts_month t;
          y = (if m < 3 then ts_year t - 1 else ts_year t);
          k = [0, 3, 2, 5, 0, 3, 5, 1, 4, 6, 2, 4] ! ((m - 1) mod 12)
      in nat ((y + y div 4 - y div 100 + y div 400 + k + int (ts_day t)) mod 7))"

definition day_name :: "timestamp \<Rightarrow> string" where
  "day_name t =
     [''Sunday'', ''Monday'', ''Tuesday'', ''Wednesday'', ''Thursday'', ''Friday'', ''Saturday'']
       ! (day_of_week t mod 7)"

definition dt_day_name :: "timestamp option list \<Rightarrow> column" where
  "dt_day_name ts = ObjectCol (map (map_option day_name) ts)"

definition add_shipping_delay :: "frame \<Rightarrow> error + frame" where
  "add_shipping_delay df =
     (if ''days_for_shipping_real'' \<in> set (labels df)
         \<and> ''days_for_shipment_scheduled'' \<in> set (labels df)
      then ebind (series df ''days_for_shipping_real'') (\<lambda>a.
           ebind (series df ''days_for_shipment_scheduled'') (\<lambda>b.
           ebind (col_sub a b) (\<lambda>d.
           Inr (setitem df ''shipping_delay_days'' d))))
      else Inr df)"

definition add_order_dates :: "frame \<Rightarrow> error + frame" where
  "add_order_dates df =
     (if ''order_date_dateorders'' \<in> set (labels df)
      then ebind (dt df ''order_date_dateorders'') (\<lambda>ts1.
           let df1 = setitem df ''order_month'' (to_period_M ts1)
           in ebind (dt df1 ''order_date_dateorders'') (\<lambda>ts2.
           let df2 = setitem df1 ''order_year'' (dt_year ts2)
           in ebind (dt df2 ''order_date_dateorders'') (\<lambda>ts3.
           Inr (setitem df2 ''order_day_of_week'' (dt_day_name ts3)))))
      else Inr df)"

definition add_profit_margin :: "frame \<Rightarrow> error + frame" where
  "add_profit_margin df =
     (if ''order_profit_per_order'' \<in> set (labels df) \<and> ''sales'' \<in> set (labels df)
      then ebind (series df ''sales'') (\<lambda>s.
           ebind (series df ''order_profit_per_order'') (\<lambda>p.
           ebind (col_div p s) (\<lambda>q.
           ebind (col_times q 100) (\<lambda>q100.
           ebind (col_round2 q100) (\<lambda>r.
           ebind (np_where0 (col_ne0 s) r) (\<lambda>m.
           Inr (setitem df ''profit_margin_pct'' m)))))))
      else Inr df)"

definition add_derived_features :: "frame \<Rightarrow> error + (msg list \<times> frame)" where
  "add_derived_features df =
     ebind (add_shipping_delay df) (\<lambda>df1.
     ebind (add_order_dates df1) (\<lambda>df2.
     ebind (add_profit_margin df2) (\<lambda>df3.
     Inr ([AddedMsg], df3))))"

text \<open>
  \<^verbatim>\<open>pd.read_csv\<close>: the files are a map from paths to the tables they parse to; a path
  without a file raises.
\<close>

definition load_raw_data :: "(string \<Rightarrow> frame option) \<Rightarrow> string \<Rightarrow> error + (msg list \<times> frame)" where
  "load_raw_data files filepath =
     (case files filepath of
        None \<Rightarrow> Inl FileNotFoundError
      | Some df \<Rightarrow> Inr ([LoadedMsg (nrows df) (length df)], df))"

text \<open>One step of the pipeline: the output so far, then the output of the step.\<close>

definition step :: "(frame \<Rightarrow> error + (msg list \<times> frame)) \<Rightarrow> msg list \<times> frame \<Rightarrow> error + (msg list \<times> frame)" where
  "step f st = ebind (f (snd st)) (\<lambda>(out, df). Inr (fst st @ out, df))"

definition run_full_cleaning_pipeline ::
  "(string \<Rightarrow> frame option) \<Rightarrow> parser \<Rightarrow> string \<Rightarrow> error + (msg list \<times> frame)" where
  "run_full_cleaning_pipeline files parse filepath =
     ebind (step (\<lambda>d. load_raw_data files filepath) ([BannerMsg], [])) (\<lambda>s1.
     ebind (step (\<lambda>d. Inr ([], standardize_columns d)) s1) (\<lambda>s2.
     ebind (step drop_redundant_columns s2) (\<lambda>s3.
     ebind (step (convert_date_columns parse) s3) (\<lambda>s4.
     ebind (step (\<lambda>d. Inr (handle_missing_values d)) s4) (\<lambda>s5.
     ebind (step remove_duplicates s5) (\<lambda>s6.
     ebind (step add_derived_features s6) (\<lambda>s7.
     Inr (fst s7 @ [CompleteMsg (nrows (snd s7)) (length (snd s7))], snd s7))))))))"


section \<open>feature\_engineering.py\<close>

text \<open>
  The statistics are the library's: \<^verbatim>\<open>pd.qcut(series, q=4, labels=[...])\<close> computes the
  quartile edges of the column and then gives each value the label of its bin (or raises,
  for instance when the edges are not distinct); \<^verbatim>\<open>series.median()\<close> and
  \<^verbatim>\<open>series.quantile(0.95)\<close> return a number or NaN. They are parameters of the model.
\<close>

record stats =
  lib_qcut :: "column \<Rightarrow> error + (cell \<Rightarrow> string option)"
  lib_median :: "column \<Rightarrow> error + cell"
  lib_quantile95 :: "column \<Rightarrow> error + cell"

text \<open>
  \<^verbatim>\<open>series > x\<close> and its like, for a number \<open>x\<close> or NaN: false where a side is null.
  Comparing strings, timestamps or periods with a number raises TypeError.
\<close>

definition series_cmp :: "(rat \<Rightarrow> rat \<Rightarrow> bool) \<Rightarrow> column \<Rightarrow> cell \<Rightarrow> error + bool list" where
  "series_cmp rel a x =
     (case (a, x) of
        (FloatCol xs, Num v) \<Rightarrow> Inr (map (\<lambda>y. case y of None \<Rightarrow> False | Some w \<Rightarrow> rel w v) xs)
      | (FloatCol xs, Null) \<Rightarrow> Inr (map (\<lambda>y. False) xs)
      | _ \<Rightarrow> Inl TypeError)"

definition astype_int :: "bool list \<Rightarrow> column" where
  "astype_int bs = FloatCol (map (\<lambda>b. Some (if b then 1 else 0)) bs)"

definition isin :: "column \<Rightarrow> string list \<Rightarrow> bool list" where
  "isin a vals = map (\<lambda>x. case x of Str v \<Rightarrow> v \<in> set vals | _ \<Rightarrow> False) (cells a)"

definition add_order_value_bucket :: "stats \<Rightarrow> frame \<Rightarrow> error + frame" where
  "add_order_value_bucket S df =
     ebind (series df ''sales'') (\<lambda>s.
     ebind (lib_qcut S s) (\<lambda>bucket.
     Inr (setitem df ''order_value_bucket'' (ObjectCol (map bucket (cells s))))))"

definition add_is_high_discount :: "stats \<Rightarrow> frame \<Rightarrow> error + frame" where
  "add_is_high_discount S df =
     (if ''order_item_discount'' \<in> set (labels df)
      then ebind (series df ''order_item_discount'') (\<lambda>d.
           ebind (lib_median S d) (\<lambda>m.
           ebind (series_cmp (\<lambda>x y. x > y) d m) (\<lambda>b.
           Inr (setitem df ''is_high_discount'' (astype_int b)))))
      else Inr df)"

definition add_is_bulk_order :: "frame \<Rightarrow> error + frame" where
  "add_is_bulk_order df =
     (if ''order_item_quantity'' \<in> set (labels df)
      then ebind (series df ''order_item_quantity'') (\<lambda>q.
           ebind (series_cmp (\<lambda>x y. x > y) q (Num 3)) (\<lambda>b.
           Inr (setitem df ''is_bulk_order'' (astype_int b))))
      else Inr df)"

definition add_is_weekend_order :: "frame \<Rightarrow> error + frame" where
  "add_is_weekend_order df =
     (if ''order_day_of_week'' \<in> set (labels df)
      then ebind (series df ''order_day_of_week'') (\<lambda>d.
           Inr (setitem df ''is_weekend_order'' (astype_int (isin d [''Saturday'', ''Sunday'']))))
      else Inr df)"

definition create_delivery_prediction_features :: "stats \<Rightarrow> frame \<Rightarrow> error + frame" where
  "create_delivery_prediction_features S df =
     ebind (add_order_value_bucket S df) (\<lambda>df1.
     ebind (add_is_high_discount S df1) (\<lambda>df2.
     ebind (add_is_bulk_order df2) (\<lambda>df3.
     add_is_weekend_order df3)))"

definition add_extreme_margin :: "stats \<Rightarrow> frame \<Rightarrow> error + frame" where
  "add_extreme_margin S df =
     (if ''profit_margin_pct'' \<in> set (labels df)
      then ebind (series df ''profit_margin_pct'') (\<lambda>m.
           ebind (lib_quantile95 S m) (\<lambda>q95.
           ebind (series df ''profit_margin_pct'') (\<lambda>m'.
           ebind (series_cmp (\<lambda>x y. x > y) m' q95) (\<lambda>b.
           Inr (setitem df ''extreme_margin'' (astype_int b))))))
      else Inr df)"

definition add_fast_ship :: "frame \<Rightarrow> error + frame" where
  "add_fast_ship df =
     (if ''days_for_shipping_real'' \<in> set (labels df)
      then ebind (series df ''days_for_shipping_real'') (\<lambda>d.
           ebind (series_cmp (\<lambda>x y. x \<le> y) d (Num 1)) (\<lambda>b.
           Inr (setitem df ''fast_ship'' (astype_int b))))
      else Inr df)"

definition add_negative_profit :: "frame \<Rightarrow> error + frame" where
  "add_negative_profit df =
     (if ''order_profit_per_order'' \<in> set (labels df)
      then ebind (series df ''order_profit_per_order'') (\<lambda>p.
           ebind (series_cmp (\<lambda>x y. x < y) p (Num 0)) (\<lambda>b.
           Inr (setitem df ''negative_profit'' (astype_int b))))
      else Inr df)"

definition create_fraud_detection_features :: "stats \<Rightarrow> frame \<Rightarrow> error + frame" where
  "create_fraud_detection_features S df =
     ebind (add_extreme_margin S df) (\<lambda>df1.
     ebind (add_fast_ship df1) (\<lambda>df2.
     add_negative_profit df2))"

section \<open>Instances for the examples\<close>

text \<open>
  A parser that reads ISO dates (\<^verbatim>\<open>YYYY-MM-DD\<close>) and nothing else, and a statistics
  library every routine of which raises: the examples below that use it show what happens
  before any statistic is computed.
\<close>

definition digit_of :: "char \<Rightarrow> nat option" where
  "digit_of c =
     (let n = (of_char c :: nat) in if 48 \<le> n \<and> n \<le> 57 then Some (n - 48) else None)"

fun number_of :: "nat \<Rightarrow> string \<Rightarrow> nat option" where
  "number_of acc [] = Some acc"
| "number_of acc (c # cs) =
     (case digit_of c of None \<Rightarrow> None | Some d \<Rightarrow> number_of (10 * acc + d) cs)"

definition parse_iso :: "string \<Rightarrow> timestamp option" where
  "parse_iso s =
     (if length s = 10 \<and> s ! 4 = CHR ''-'' \<and> s ! 7 = CHR ''-''
      then (case (number_of 0 (take 4 s), number_of 0 (take 2 (drop 5 s)), number_of 0 (drop 8 s)) of
              (Some y, Some m, Some d) \<Rightarrow>
                if 1 \<le> m \<and> m \<le> 12 \<and> 1 \<le> d \<and> d \<le> 31 then Some (Timestamp (int y) m d 0)
                else None
            | _ \<Rightarrow> None)
      else None)"

definition iso_parser :: parser where
  "iso_parser c x = (case x of Str s \<Rightarrow> parse_iso s | _ \<Rightarrow> None)"

definition failing_stats :: stats where
  "failing_stats =
     \<lparr>lib_qcut = (\<lambda>c. Inl ValueError), lib_median = (\<lambda>c. Inl ValueError),
      lib_quantile95 = (\<lambda>c. Inl ValueError)\<rparr>"

definition raw_customers :: frame where
  "raw_customers =
     [(''Customer Email'', ObjectCol [Some ''XXXXXXXXX'']),
      ('' customer fname'', ObjectCol [Some ''Mary'']),
      (''Sales'', FloatCol [Some 100]),
      (''Customer Lname'', ObjectCol [Some ''Smith'']),
      (''Customer Password'', ObjectCol [Some ''XXXXXXXXX'']),
      (''Product Image'', ObjectCol [Some ''http://images/1.jpg''])]"

definition orders_with_gaps :: frame where
  "orders_with_gaps =
     [(''sales'', FloatCol [Some 10, None, Some 30, None]),
      (''market'', ObjectCol [Some ''Europe'', Some ''LATAM'', None, Some ''USCA'']),
      (''order_id'', FloatCol [Some 1, Some 2, Some 3, Some 4])]"

definition raw_headers :: frame where
  "raw_headers =
     [('' Order Date (DateOrders) '', ObjectCol [Some ''2018-01-01'']),
      (''Days for shipping (real)'', FloatCol [Some 3]),
      (''Order.Id'', FloatCol [Some 1])]"


text \<open>
  What makes a column usable for the steps that read it: one column of that label, of
  numbers, of timestamps, or of anything \<^verbatim>\<open>pd.to_datetime\<close> accepts.
\<close>

definition float_series :: "frame \<Rightarrow> string \<Rightarrow> bool" where
  "float_series df n = (case series df n of Inr (FloatCol xs) \<Rightarrow> True | _ \<Rightarrow> False)"

definition datetime_series :: "frame \<Rightarrow> string \<Rightarrow> bool" where
  "datetime_series df n = (case series df n of Inr (DatetimeCol ts) \<Rightarrow> True | _ \<Rightarrow> False)"

definition convertible_series :: "frame \<Rightarrow> string \<Rightarrow> bool" where
  "convertible_series df n =
     (case series df n of Inr (PeriodCol ps) \<Rightarrow> False | Inr c \<Rightarrow> True | Inl e \<Rightarrow> False)"




definition header_only_files :: "string \<Rightarrow> frame option" where
  "header_only_files path =
     (if path = ''orders.csv''
      then Some [(''Sales'', ObjectCol []), (''Order Profit Per Order'', ObjectCol [])]
      else None)"

definition quantity_only :: frame where
  "quantity_only = [(''order_item_quantity'', FloatCol [Some 5, Some 2])]"

text \<open>
  The end-to-end scenario of the specification, as a predicate on the loaded table: ten
  rows, two of which repeat earlier rows; the five personal columns; numeric \<open>sales\<close> and
  \<open>order_profit_per_order\<close> with a row where they are 0 and 50; two date columns all of
  whose values the parser reads; and, if the table has both shipping-day columns, numbers
  in them. Labels are taken after standardization.
\<close>

definition valid_dates :: "parser \<Rightarrow> frame \<Rightarrow> string \<Rightarrow> bool" where
  "valid_dates parse df n =
     (case series df n of
        Inr c \<Rightarrow> (case to_datetime parse c of
                    Inr (DatetimeCol ts) \<Rightarrow> list_all (\<lambda>t. t \<noteq> None) ts
                  | _ \<Rightarrow> False)
      | Inl e \<Rightarrow> False)"

definition end_to_end_scenario :: "parser \<Rightarrow> frame \<Rightarrow> bool" where
  "end_to_end_scenario parse raw =
     (let df = standardize_columns raw in
        wf_frame raw \<and> nrows raw = 10
      \<and> length (remdups (rows_of raw)) = 8
      \<and> list_all (\<lambda>n. n \<in> set (labels df)) cols_to_drop
      \<and> (case (series df ''sales'', series df ''order_profit_per_order'') of
           (Inr (FloatCol ss), Inr (FloatCol ps)) \<Rightarrow>
              list_ex (\<lambda>(s, p). s = Some 0 \<and> p = Some 50) (zip ss ps)
         | _ \<Rightarrow> False)
      \<and> valid_dates parse df ''order_date_dateorders''
      \<and> valid_dates parse df ''shipping_date_dateorders''
      \<and> (''days_for_shipping_real'' \<in> set (labels df)
            \<and> ''days_for_shipment_scheduled'' \<in> set (labels df)
          \<longrightarrow> float_series df ''days_for_shipping_real''
            \<and> float_series df ''days_for_shipment_scheduled''))"


text \<open>Ten orders; the last two repeat the first two, the third has no sales.\<close>

definition orders_table :: frame where
  "orders_table =
     [(''Customer Email'', ObjectCol (map Some [''a@x'', ''b@x'', ''c@x'', ''d@x'', ''e@x'', ''f@x'', ''g@x'', ''h@x'', ''a@x'', ''b@x''])),
      (''Customer Password'', ObjectCol (replicate 10 (Some ''XX''))),
      (''Product Image'', ObjectCol (replicate 10 (Some ''img''))),
      (''Customer Fname'', ObjectCol (map Some [''Ann'', ''Bob'', ''Cy'', ''Di'', ''Ed'', ''Flo'', ''Gus'', ''Hal'', ''Ann'', ''Bob''])),
      (''Customer Lname'', ObjectCol (replicate 10 (Some ''Doe''))),
      (''Sales'', FloatCol (map Some [100, 200, 0, 300, 400, 500, 600, 700, 100, 200])),
      (''Order Profit Per Order'', FloatCol (map Some [25, -10, 50, 30, 30, 30, 30, 30, 25, -10])),
      (''order date (DateOrders)'', ObjectCol (replicate 10 (Some ''2018-01-15''))),
      (''shipping date (DateOrders)'', ObjectCol (replicate 10 (Some ''2018-01-18'')))]"

text \<open>The same, but the fourth and fifth order now differ in the customer only.\<close>

definition orders_table_same_sale :: frame where
  "orders_table_same_sale =
     [(''Customer Email'', ObjectCol (map Some [''a@x'', ''b@x'', ''c@x'', ''d@x'', ''e@x'', ''f@x'', ''g@x'', ''h@x'', ''a@x'', ''b@x''])),
      (''Customer Password'', ObjectCol (replicate 10 (Some ''XX''))),
      (''Product Image'', ObjectCol (replicate 10 (Some ''img''))),
      (''Customer Fname'', ObjectCol (map Some [''Ann'', ''Bob'', ''Cy'', ''Di'', ''Ed'', ''Flo'', ''Gus'', ''Hal'', ''Ann'', ''Bob''])),
      (''Customer Lname'', ObjectCol (replicate 10 (Some ''Doe''))),
      (''Sales'', FloatCol (map Some [100, 200, 0, 300, 300, 500, 600, 700, 100, 200])),
      (''Order Profit Per Order'', FloatCol (map Some [25, -10, 50, 30, 30, 30, 30, 30, 25, -10])),
      (''order date (DateOrders)'', ObjectCol (replicate 10 (Some ''2018-01-15''))),
      (''shipping date (DateOrders)'', ObjectCol (replicate 10 (Some ''2018-01-18'')))]"

definition orders_files :: "string \<Rightarrow> frame option" where
  "orders_files path =
     (if path = ''orders.csv'' then Some orders_table
      else if path = ''orders_same_sale.csv'' then Some orders_table_same_sale
      else None)"

section \<open>Column labels after standardization\<close>

lemma of_char_lower:
  "(of_char (py_lower_char c) :: nat) = (if py_isupper c then of_char c + 32 else of_char c)"
  by (auto simp: py_lower_char_def py_isupper_def Let_def)

lemma lower_not_upper: "\<not> py_isupper (py_lower_char c)"
  unfolding py_isupper_def Let_def of_char_lower by (auto simp: py_isupper_def Let_def)

lemma lower_space: "py_isspace (py_lower_char c) = py_isspace c"
  unfolding py_isspace_def Let_def of_char_lower by (auto simp: py_isupper_def Let_def)

lemma str_replace_filter: "str_replace old [] s = filter (\<lambda>c. c \<noteq> old) s"
  by (induction s) (auto simp: str_replace_def)

lemma str_replace_map: "str_replace old [new] s = map (\<lambda>c. if c = old then new else c) s"
  by (induction s) (auto simp: str_replace_def)

lemma standardize_name_alt:
  "standardize_name s =
     map (\<lambda>c. if c = CHR ''.'' then CHR ''_'' else c)
       (filter (\<lambda>c. c \<noteq> CHR ''('' \<and> c \<noteq> CHR '')'')
         (map (\<lambda>c. if c = CHR '' '' then CHR ''_'' else c) (str_lower (str_strip s))))"
  by (simp add: standardize_name_def str_replace_filter str_replace_map conj_commute)

lemma special_chars:
  "py_isspace (CHR '' '')" "\<not> py_isspace (CHR ''_'')" "\<not> py_isupper (CHR ''_'')"
  by (simp_all add: py_isspace_def py_isupper_def)

lemma standardize_name_chars:
  assumes "c \<in> set (standardize_name s)"
  shows "c \<noteq> CHR '' '' \<and> c \<noteq> CHR ''('' \<and> c \<noteq> CHR '')'' \<and> c \<noteq> CHR ''.'' \<and> \<not> py_isupper c"
  using assms unfolding standardize_name_alt str_lower_def
  by (auto simp: lower_not_upper special_chars split: if_splits)

lemma set_str_strip: "set (str_strip s) \<subseteq> set s"
  by (auto simp: str_strip_def dest!: set_dropWhileD)

lemma dropWhile_none: "\<forall>x\<in>set xs. \<not> P x \<Longrightarrow> dropWhile P xs = xs"
  by (cases xs) auto

lemma str_lower_fixed: "\<forall>c\<in>set u. \<not> py_isupper c \<Longrightarrow> str_lower u = u"
  by (induction u) (auto simp: str_lower_def py_lower_char_def)

lemma standardize_name_second:
  "standardize_name (standardize_name s) = str_strip (standardize_name s)"
proof -
  let ?t = "standardize_name s"
  let ?u = "str_strip ?t"
  have u: "c \<in> set ?u \<Longrightarrow>
      c \<noteq> CHR '' '' \<and> c \<noteq> CHR ''('' \<and> c \<noteq> CHR '')'' \<and> c \<noteq> CHR ''.'' \<and> \<not> py_isupper c" for c
    using set_str_strip[of ?t] standardize_name_chars[of c s] by blast
  have low: "str_lower ?u = ?u" using u by (intro str_lower_fixed) blast
  have m1: "map (\<lambda>c. if c = CHR '' '' then CHR ''_'' else c) ?u = ?u"
    using u by (intro map_idI) auto
  have f: "filter (\<lambda>c. c \<noteq> CHR ''('' \<and> c \<noteq> CHR '')'') ?u = ?u"
    using u by (intro filter_True) blast
  have m2: "map (\<lambda>c. if c = CHR ''.'' then CHR ''_'' else c) ?u = ?u"
    using u by (intro map_idI) auto
  show ?thesis
    by (subst standardize_name_alt) (simp only: low m1 f m2)
qed

lemma str_strip_no_space: "\<forall>c\<in>set t. \<not> py_isspace c \<Longrightarrow> str_strip t = t"
  by (simp add: str_strip_def dropWhile_none)

lemma lower_of_space: "py_isspace c \<Longrightarrow> py_lower_char c = c"
  by (auto simp: py_lower_char_def py_isupper_def py_isspace_def Let_def)

lemma standardize_name_no_space:
  assumes "\<forall>c\<in>set s. py_isspace c \<longrightarrow> c = CHR '' ''"
  shows "\<forall>c\<in>set (standardize_name s). \<not> py_isspace c"
proof -
  have "\<forall>c\<in>set (str_strip s). py_isspace c \<longrightarrow> c = CHR '' ''"
    using assms set_str_strip by blast
  then show ?thesis
    unfolding standardize_name_alt str_lower_def
    by (auto simp: special_chars lower_space lower_of_space split: if_splits)
qed

lemma standardize_name_idem:
  assumes "\<forall>c\<in>set s. py_isspace c \<longrightarrow> c = CHR '' ''"
  shows "standardize_name (standardize_name s) = standardize_name s"
  using standardize_name_no_space[OF assms]
  by (simp add: standardize_name_second str_strip_no_space)

text \<open>
  The specification's wording of the standardized label deletes periods. The code
  replaces a period by an underscore: \<^verbatim>\<open>Order.Id\<close> becomes \<^verbatim>\<open>order_id\<close>, not
  \<^verbatim>\<open>orderid\<close>.
\<close>

theorem standardize_columns_period_counterexample:
  "labels (standardize_columns [(''Order.Id'', FloatCol [Some 1])])
     \<noteq> map spec_standard_name (labels [(''Order.Id'', FloatCol [Some 1])])"
  by code_simp

text \<open>
  C4 (as amended). For every table, each label produced by \<open>standardize_columns\<close> is the
  original label trimmed of surrounding whitespace, lowercased, with every space replaced
  by an underscore, every parenthesis deleted and every period replaced by an underscore;
  the columns themselves are unchanged. So no output label contains a space, a parenthesis,
  a period or an uppercase letter.
\<close>

theorem standardize_columns_labels:
  "labels (standardize_columns df) =
     map (\<lambda>s. map (\<lambda>c. if c = CHR ''.'' then CHR ''_'' else c)
                (filter (\<lambda>c. c \<noteq> CHR ''('' \<and> c \<noteq> CHR '')'')
                  (map (\<lambda>c. if c = CHR '' '' then CHR ''_'' else c) (str_lower (str_strip s)))))
       (labels df)
   \<and> map snd (standardize_columns df) = map snd df
   \<and> (\<forall>n\<in>set (labels (standardize_columns df)). \<forall>c\<in>set n.
         c \<noteq> CHR '' '' \<and> c \<noteq> CHR ''('' \<and> c \<noteq> CHR '')'' \<and> c \<noteq> CHR ''.'' \<and> \<not> py_isupper c)"
proof (intro conjI ballI)
  show "labels (standardize_columns df) =
     map (\<lambda>s. map (\<lambda>c. if c = CHR ''.'' then CHR ''_'' else c)
                (filter (\<lambda>c. c \<noteq> CHR ''('' \<and> c \<noteq> CHR '')'')
                  (map (\<lambda>c. if c = CHR '' '' then CHR ''_'' else c) (str_lower (str_strip s)))))
       (labels df)"
    by (simp add: labels_def standardize_columns_def split_def comp_def
        standardize_name_alt [symmetric])
  show "map snd (standardize_columns df) = map snd df"
    by (simp add: standardize_columns_def split_def comp_def)
next
  fix n c
  assume "n \<in> set (labels (standardize_columns df))" and c: "c \<in> set n"
  then obtain s where "n = standardize_name s"
    by (auto simp: labels_def standardize_columns_def)
  with c have "c \<in> set (standardize_name s)" by simp
  then have *: "c \<noteq> CHR '' '' \<and> c \<noteq> CHR ''('' \<and> c \<noteq> CHR '')'' \<and> c \<noteq> CHR ''.'' \<and> \<not> py_isupper c"
    by (rule standardize_name_chars)
  from * show "c \<noteq> CHR '' ''" by blast
  from * show "c \<noteq> CHR ''(''" by blast
  from * show "c \<noteq> CHR '')''" by blast
  from * show "c \<noteq> CHR ''.''" by blast
  from * show "\<not> py_isupper c" by blast
qed

theorem standardize_columns_labels_witness:
  "labels (standardize_columns raw_headers)
     = [''order_date_dateorders'', ''days_for_shipping_real'', ''order_id'']"
proof -
  have "labels (standardize_columns raw_headers) =
     map (\<lambda>s. map (\<lambda>c. if c = CHR ''.'' then CHR ''_'' else c)
                (filter (\<lambda>c. c \<noteq> CHR ''('' \<and> c \<noteq> CHR '')'')
                  (map (\<lambda>c. if c = CHR '' '' then CHR ''_'' else c) (str_lower (str_strip s)))))
       (labels raw_headers)"
    using standardize_columns_labels [of raw_headers] by (rule conjunct1)
  also have "\<dots> = [''order_date_dateorders'', ''days_for_shipping_real'', ''order_id'']"
    by code_simp
  finally show ?thesis .
qed

text \<open>
  A second application is not always a no-op: \<^verbatim>\<open>str.strip\<close> runs before the parentheses
  are deleted, so a tab between parentheses survives the first application and is stripped
  by the second.
\<close>

theorem standardize_columns_twice_counterexample:
  "labels (standardize_columns (standardize_columns [([CHR ''x'', CHR ''('', CHR 0x09, CHR '')''], FloatCol [])]))
     \<noteq> labels (standardize_columns [([CHR ''x'', CHR ''('', CHR 0x09, CHR '')''], FloatCol [])])"
  by code_simp

text \<open>
  C5 (as amended). For every table, a second application of \<open>standardize_columns\<close> does
  nothing but strip the whitespace that the first application left at the ends of a label;
  \<open>standardize_columns\<close> is idempotent on every table whose labels contain no whitespace
  character other than the space.
\<close>

theorem standardize_columns_twice:
  "labels (standardize_columns (standardize_columns df))
     = map str_strip (labels (standardize_columns df))
   \<and> ((\<forall>n\<in>set (labels df). \<forall>c\<in>set n. py_isspace c \<longrightarrow> c = CHR '' '')
        \<longrightarrow> standardize_columns (standardize_columns df) = standardize_columns df)"
proof (intro conjI impI)
  show "labels (standardize_columns (standardize_columns df))
          = map str_strip (labels (standardize_columns df))"
    by (simp add: labels_def standardize_columns_def split_def standardize_name_second comp_def)
next
  assume "\<forall>n\<in>set (labels df). \<forall>c\<in>set n. py_isspace c \<longrightarrow> c = CHR '' ''"
  then have "\<forall>(n, c)\<in>set df. standardize_name (standardize_name n) = standardize_name n"
    by (auto simp: labels_def intro!: standardize_name_idem)
  then show "standardize_columns (standardize_columns df) = standardize_columns df"
    by (auto simp: standardize_columns_def split_def)
qed

theorem standardize_columns_twice_witness:
  "standardize_columns (standardize_columns raw_headers) = standardize_columns raw_headers"
proof -
  have "list_all (\<lambda>n. list_all (\<lambda>c. py_isspace c \<longrightarrow> c = CHR '' '') n) (labels raw_headers)"
    by code_simp
  then have "\<forall>n\<in>set (labels raw_headers). \<forall>c\<in>set n. py_isspace c \<longrightarrow> c = CHR '' ''"
    by (simp add: list_all_iff)
  with standardize_columns_twice [of raw_headers] show ?thesis by blast
qed

section \<open>Dropping the personal columns\<close>

lemma existing_drops_present:
  "\<not> list_ex (\<lambda>l. l \<notin> set (labels df)) (filter (\<lambda>col. col \<in> set (labels df)) ls)"
  by (simp add: list_ex_iff)

lemma drop_existing_filter:
  "filter (\<lambda>(n, c). n \<notin> set (filter (\<lambda>col. col \<in> set (labels df)) ls)) df
     = filter (\<lambda>(n, c). n \<notin> set ls) df"
  by (rule filter_cong) (force simp: labels_def)+

lemma drop_redundant_columns_eq:
  "drop_redundant_columns df =
     Inr ([DroppedMsg (length (filter (\<lambda>col. col \<in> set (labels df)) cols_to_drop))
             (filter (\<lambda>col. col \<in> set (labels df)) cols_to_drop)],
          filter (\<lambda>(n, c). n \<notin> set cols_to_drop) df)"
  unfolding drop_redundant_columns_def Let_def frame_drop_def ebind_def
  by (simp only: existing_drops_present drop_existing_filter if_False sum.case)

text \<open>
  C6. For every table, \<open>drop_redundant_columns\<close> returns, and the table it returns has none
  of the five labels \<open>customer_email\<close>, \<open>customer_password\<close>, \<open>product_image\<close>,
  \<open>customer_fname\<close>, \<open>customer_lname\<close>, whether or not they were labels of the input; the
  other columns are kept as they are. (The witness drops them from a table whose raw labels
  are capitalised and spaced, after \<open>standardize_columns\<close>.)
\<close>

theorem drop_redundant_columns_no_pii:
  "\<exists>out df'. drop_redundant_columns df = Inr (out, df')
      \<and> set (labels df') \<inter> set cols_to_drop = {}
      \<and> df' = filter (\<lambda>(n, c). n \<notin> set cols_to_drop) df"
  by (auto simp: drop_redundant_columns_eq labels_def)

theorem drop_redundant_columns_no_pii_witness:
  "map_sum id snd (drop_redundant_columns (standardize_columns raw_customers))
     = Inr [(''sales'', FloatCol [Some 100])]"
proof -
  obtain out df' where r: "drop_redundant_columns (standardize_columns raw_customers) = Inr (out, df')"
    and d: "df' = filter (\<lambda>(n, c). n \<notin> set cols_to_drop) (standardize_columns raw_customers)"
    using drop_redundant_columns_no_pii [of "standardize_columns raw_customers"] by blast
  have "filter (\<lambda>(n, c). n \<notin> set cols_to_drop) (standardize_columns raw_customers)
          = [(''sales'', FloatCol [Some 100])]"
    by code_simp
  with r d show ?thesis by simp
qed

section \<open>The missing-value audit\<close>

text \<open>
  C10. \<open>handle_missing_values\<close> only reports: for every table, the table it returns is its
  input, with the same columns, rows and values; nothing is imputed or dropped.
\<close>

theorem handle_missing_values_identity: "snd (handle_missing_values df) = df"
  by (simp add: handle_missing_values_def Let_def)

theorem handle_missing_values_identity_witness:
  "handle_missing_values orders_with_gaps
     = ([MissingMsg [(''sales'', 2, Some 50), (''market'', 1, Some 25)]], orders_with_gaps)"
proof -
  have "fst (handle_missing_values orders_with_gaps)
          = [MissingMsg [(''sales'', 2, Some 50), (''market'', 1, Some 25)]]"
    by code_simp
  moreover have "snd (handle_missing_values orders_with_gaps) = orders_with_gaps"
    by (rule handle_missing_values_identity)
  ultimately show ?thesis by (simp add: prod_eq_iff)
qed

section \<open>Removing duplicate rows\<close>

lemma wf_frame_len: "wf_frame df \<Longrightarrow> (n, c) \<in> set df \<Longrightarrow> col_len c = nrows df"
  by (auto simp: wf_frame_def list_all_iff)

lemma length_rows_of [simp]: "length (rows_of df) = nrows df"
  by (simp add: rows_of_def)


lemma col_len_col_take [simp]: "col_len (col_take idx c) = length idx"
  by (cases c) (simp_all add: col_len_def)

lemma nrows_take_rows:
  "df \<noteq> [] \<Longrightarrow> nrows (map (\<lambda>(n, c). (n, col_take idx c)) df) = length idx"
  by (cases df) (auto simp: nrows_def)


lemma first_occurrences_bound: "i \<in> set (first_occurrences rs) \<Longrightarrow> i < length rs"
  by (simp add: first_occurrences_def)


lemma nth_in_take: "a < b \<Longrightarrow> b < length rs \<Longrightarrow> rs ! a \<in> set (take b rs)"
proof -
  assume ab: "a < b" and b: "b < length rs"
  then have "a < length (take b rs)" by simp
  then have "take b rs ! a \<in> set (take b rs)" by (rule nth_mem)
  then show ?thesis using ab by simp
qed

lemma first_occurrences_iff:
  "i \<in> set (first_occurrences rs) \<longleftrightarrow> i < length rs \<and> rs ! i \<notin> set (take i rs)"
  by (auto simp: first_occurrences_def)

lemma distinct_first_occurrences: "distinct (map (\<lambda>i. rs ! i) (first_occurrences rs))"
proof -
  have d: "distinct (first_occurrences rs)" by (simp add: first_occurrences_def)
  have "inj_on (\<lambda>i. rs ! i) (set (first_occurrences rs))"
  proof (rule inj_onI)
    fix i j assume i: "i \<in> set (first_occurrences rs)" and j: "j \<in> set (first_occurrences rs)"
      and eq: "rs ! i = rs ! j"
    from i have i': "i < length rs" "rs ! i \<notin> set (take i rs)" by (simp_all add: first_occurrences_iff)
    from j have j': "j < length rs" "rs ! j \<notin> set (take j rs)" by (simp_all add: first_occurrences_iff)
    show "i = j"
    proof (rule ccontr)
      assume "i \<noteq> j"
      then consider "i < j" | "j < i" by linarith
      then show False
      proof cases
        case 1 
        then have "rs ! i \<in> set (take j rs)" using j'(1) by (rule nth_in_take)
        then show ?thesis using j'(2) eq by simp
      next
        case 2 
        then have "rs ! j \<in> set (take i rs)" using i'(1) by (rule nth_in_take)
        then show ?thesis using i'(2) eq by simp
      qed
    qed
  qed
  with d show ?thesis by (simp add: distinct_map)
qed

lemma set_first_occurrences: "set (map (\<lambda>i. rs ! i) (first_occurrences rs)) = set rs"
proof (intro equalityI subsetI)
  fix x assume "x \<in> set (map (\<lambda>i. rs ! i) (first_occurrences rs))"
  then show "x \<in> set rs" by (auto simp: first_occurrences_def)
next
  fix x assume "x \<in> set rs"
  then obtain i where i: "i < length rs" "rs ! i = x" by (auto simp: in_set_conv_nth)
  define k where "k = (LEAST i. i < length rs \<and> rs ! i = x)"
  have k: "k < length rs \<and> rs ! k = x" unfolding k_def by (rule LeastI[of _ i]) (use i in simp)
  have "rs ! k \<notin> set (take k rs)"
  proof
    assume "rs ! k \<in> set (take k rs)"
    then obtain j where "j < k" "rs ! j = rs ! k" using k by (auto simp: in_set_conv_nth)
    then have "j < length rs \<and> rs ! j = x" using k by simp
    then have "k \<le> j" unfolding k_def by (rule Least_le)
    with \<open>j < k\<close> show False by simp
  qed
  then have "k \<in> set (first_occurrences rs)" using k by (simp add: first_occurrences_def)
  then show "x \<in> set (map (\<lambda>i. rs ! i) (first_occurrences rs))" using k by force
qed



lemma wf_drop_duplicates: "wf_frame (drop_duplicates df)"
  by (cases df) (auto simp: wf_frame_def list_all_iff drop_duplicates_def Let_def nrows_def)

lemma labels_drop_duplicates: "labels (drop_duplicates df) = labels df"
  by (simp add: labels_def drop_duplicates_def Let_def comp_def split_def)

lemma remove_duplicates_eq:
  "remove_duplicates df =
     (if nrows df = 0 then Inl ZeroDivisionError
      else Inr ([RemovedMsg (nrows df - nrows (drop_duplicates df))
                  (of_nat (nrows df - nrows (drop_duplicates df)) / of_nat (nrows df) * 100)],
                drop_duplicates df))"
  by (simp add: remove_duplicates_def Let_def py_div_def ebind_def)




section \<open>Derived features\<close>

lemma ebind_Inr: "ebind r f = Inr y \<longleftrightarrow> (\<exists>x. r = Inr x \<and> f x = Inr y)"
  by (cases r) (simp_all add: ebind_def)


lemma columns_named_Nil: "columns_named df n = [] \<longleftrightarrow> n \<notin> set (labels df)"
  by (force simp: columns_named_def labels_def filter_empty_conv)

lemma series_KeyError: "series df n = Inl KeyError \<longleftrightarrow> n \<notin> set (labels df)"
  by (auto simp: series_def columns_named_Nil[symmetric] split: list.splits)


lemma labels_setitem: "set (labels (setitem df m c)) = insert m (set (labels df))"
  by (force simp: setitem_def labels_def split: if_splits)

lemma columns_named_replace_other:
  "n \<noteq> m \<Longrightarrow>
     columns_named (map (\<lambda>(a, old). if a = m then (a, c) else (a, old)) df) n = columns_named df n"
  by (induction df) (auto simp: columns_named_def split: if_splits)

lemma columns_named_setitem_other:
  "n \<noteq> m \<Longrightarrow> columns_named (setitem df m c) n = columns_named df n"
  unfolding setitem_def
  by (simp add: columns_named_replace_other) (simp add: columns_named_def)

lemma columns_named_setitem_same:
  "set (columns_named (setitem df m c) m) = {c}"
proof (cases "m \<in> set (labels df)")
  case True
  then have "columns_named (setitem df m c) m = map (\<lambda>x. c) (columns_named df m)"
    unfolding setitem_def columns_named_def by (simp add: filter_map comp_def split_def if_distrib cong: if_cong)
  moreover have "columns_named df m \<noteq> []" using True by (simp add: columns_named_Nil)
  ultimately show ?thesis by (cases "columns_named df m") auto
next
  case False
  then have "filter (\<lambda>(a, c). a = m) df = []" by (force simp: filter_empty_conv labels_def)
  then show ?thesis using False by (simp add: setitem_def columns_named_def)
qed

lemma series_setitem_other: "n \<noteq> m \<Longrightarrow> series (setitem df m c) n = series df n"
  by (simp add: series_def columns_named_setitem_other)

lemma dt_setitem_other: "n \<noteq> m \<Longrightarrow> dt (setitem df m c) n = dt df n"
  by (simp add: dt_def columns_named_setitem_other)

lemma col_arith_Inr:
  "col_arith f a b = Inr d \<longleftrightarrow> (\<exists>xs ys. a = FloatCol xs \<and> b = FloatCol ys \<and> d = FloatCol (map2 (lift2 f) xs ys))"
  by (auto simp: col_arith_def split: column.splits)

lemma col_times_Inr:
  "col_times a k = Inr d \<longleftrightarrow> (\<exists>xs. a = FloatCol xs \<and> d = FloatCol (map (map_option (\<lambda>x. x * k)) xs))"
  by (auto simp: col_times_def split: column.splits)

lemma col_round2_Inr:
  "col_round2 a = Inr d \<longleftrightarrow> (\<exists>xs. a = FloatCol xs \<and> d = FloatCol (map (map_option round2) xs))"
  by (auto simp: col_round2_def split: column.splits)

lemma np_where0_Inr:
  "np_where0 cond a = Inr d \<longleftrightarrow>
     (\<exists>xs. a = FloatCol xs \<and> d = FloatCol (map2 (\<lambda>b x. if b then x else Some 0) cond xs))"
  by (auto simp: np_where0_def split: column.splits)

lemma add_shipping_delay_other:
  "add_shipping_delay df = Inr df1 \<Longrightarrow> n \<noteq> ''shipping_delay_days'' \<Longrightarrow>
     columns_named df1 n = columns_named df n"
  by (auto simp: add_shipping_delay_def ebind_Inr columns_named_setitem_other split: if_splits)

lemma add_order_dates_other:
  "add_order_dates df = Inr df2 \<Longrightarrow> n \<noteq> ''order_month'' \<Longrightarrow> n \<noteq> ''order_year'' \<Longrightarrow>
     n \<noteq> ''order_day_of_week'' \<Longrightarrow> columns_named df2 n = columns_named df n"
  by (auto simp: add_order_dates_def ebind_Inr Let_def columns_named_setitem_other split: if_splits)

lemma add_profit_margin_other:
  "add_profit_margin df = Inr df3 \<Longrightarrow> n \<noteq> ''profit_margin_pct'' \<Longrightarrow>
     columns_named df3 n = columns_named df n"
  by (auto simp: add_profit_margin_def ebind_Inr columns_named_setitem_other split: if_splits)

lemma labels_columns_named: "n \<in> set (labels df) \<longleftrightarrow> columns_named df n \<noteq> []"
  by (simp add: columns_named_Nil)

lemma series_columns_named: "columns_named df' n = columns_named df n \<Longrightarrow> series df' n = series df n"
  by (simp add: series_def)


lemma add_profit_margin_value:
  assumes "add_profit_margin df = Inr df3"
    and "''order_profit_per_order'' \<in> set (labels df)"
    and "''sales'' \<in> set (labels df)"
  shows "\<exists>ps ss. series df ''order_profit_per_order'' = Inr (FloatCol ps)
     \<and> series df ''sales'' = Inr (FloatCol ss)
     \<and> set (columns_named df3 ''profit_margin_pct'')
         = {FloatCol (map2 (\<lambda>b x. if b then x else Some 0) (col_ne0 (FloatCol ss))
              (map (map_option round2) (map (map_option (\<lambda>x. x * 100))
                 (map2 (lift2 (\<lambda>x y. if y = 0 then None else Some (x / y))) ps ss))))}"
  using assms
  by (auto simp: add_profit_margin_def ebind_Inr col_div_def col_arith_Inr col_times_Inr
      col_round2_Inr np_where0_Inr columns_named_setitem_same)

lemma add_derived_features_Inr:
  "add_derived_features df = Inr (out, df') \<longleftrightarrow>
     out = [AddedMsg] \<and> (\<exists>df1 df2. add_shipping_delay df = Inr df1 \<and> add_order_dates df1 = Inr df2
        \<and> add_profit_margin df2 = Inr df')"
  by (auto simp: add_derived_features_def ebind_Inr)

lemma series_mem: "series df n = Inr c \<Longrightarrow> (n, c) \<in> set df"
proof -
  assume "series df n = Inr c"
  then have "columns_named df n = [c]" by (auto simp: series_def split: list.splits)
  then have "c \<in> set (columns_named df n)" by simp
  then show ?thesis by (auto simp: columns_named_def)
qed

lemma series_len: "wf_frame df \<Longrightarrow> series df n = Inr (FloatCol xs) \<Longrightarrow> length xs = nrows df"
  using wf_frame_len[of df n "FloatCol xs"] series_mem[of df n "FloatCol xs"]
  by (simp add: col_len_def)

lemma margin_row:
  assumes "i < length ps" "i < length ss"
  shows "map2 (\<lambda>b x. if b then x else Some 0) (col_ne0 (FloatCol ss))
              (map (map_option round2) (map (map_option (\<lambda>x. x * 100))
                 (map2 (lift2 (\<lambda>x y. if y = 0 then None else Some (x / y))) ps ss))) ! i
         = (if ss ! i = Some 0 then Some 0
            else case (ps ! i, ss ! i) of (Some p, Some s) \<Rightarrow> Some (round2 (p / s * 100))
                 | _ \<Rightarrow> None)"
  using assms by (auto simp: col_ne0_def lift2_def split: option.splits)


lemma profit_margin_column:
  assumes ret: "add_derived_features df = Inr (out, df')"
    and p: "''order_profit_per_order'' \<in> set (labels df)"
    and s: "''sales'' \<in> set (labels df)"
  shows "\<exists>ps ss.
      series df ''order_profit_per_order'' = Inr (FloatCol ps)
    \<and> series df ''sales'' = Inr (FloatCol ss)
    \<and> series df' ''order_profit_per_order'' = Inr (FloatCol ps)
    \<and> series df' ''sales'' = Inr (FloatCol ss)
    \<and> set (columns_named df' ''profit_margin_pct'')
         = {FloatCol (map2 (\<lambda>b x. if b then x else Some 0) (col_ne0 (FloatCol ss))
              (map (map_option round2) (map (map_option (\<lambda>x. x * 100))
                 (map2 (lift2 (\<lambda>x y. if y = 0 then None else Some (x / y))) ps ss))))}"
proof -
  from ret obtain df1 df2 where 1: "add_shipping_delay df = Inr df1"
    and 2: "add_order_dates df1 = Inr df2" and 3: "add_profit_margin df2 = Inr df'"
    by (auto simp: add_derived_features_Inr)
  have cp: "columns_named df2 ''order_profit_per_order'' = columns_named df ''order_profit_per_order''"
    using add_shipping_delay_other[OF 1, of "''order_profit_per_order''"]
      add_order_dates_other[OF 2, of "''order_profit_per_order''"] by simp
  have cs: "columns_named df2 ''sales'' = columns_named df ''sales''"
    using add_shipping_delay_other[OF 1, of "''sales''"]
      add_order_dates_other[OF 2, of "''sales''"] by simp
  have p2: "''order_profit_per_order'' \<in> set (labels df2)" and s2: "''sales'' \<in> set (labels df2)"
    using p s cp cs by (simp_all add: labels_columns_named)
  from add_profit_margin_value[OF 3 p2 s2] obtain ps ss where
    sp: "series df2 ''order_profit_per_order'' = Inr (FloatCol ps)"
    and ss: "series df2 ''sales'' = Inr (FloatCol ss)"
    and m: "set (columns_named df' ''profit_margin_pct'')
         = {FloatCol (map2 (\<lambda>b x. if b then x else Some 0) (col_ne0 (FloatCol ss))
              (map (map_option round2) (map (map_option (\<lambda>x. x * 100))
                 (map2 (lift2 (\<lambda>x y. if y = 0 then None else Some (x / y))) ps ss))))}"
    by blast
  have sp0: "series df ''order_profit_per_order'' = Inr (FloatCol ps)"
    using sp series_columns_named[OF cp] by simp
  have ss0: "series df ''sales'' = Inr (FloatCol ss)"
    using ss series_columns_named[OF cs] by simp
  have sp': "series df' ''order_profit_per_order'' = Inr (FloatCol ps)"
    using sp series_columns_named[OF add_profit_margin_other[OF 3, of "''order_profit_per_order''"]]
    by simp
  have ss': "series df' ''sales'' = Inr (FloatCol ss)"
    using ss series_columns_named[OF add_profit_margin_other[OF 3, of "''sales''"]] by simp
  from sp0 ss0 sp' ss' m show ?thesis by blast
qed



section \<open>Which inputs the cleaning steps accept\<close>

lemma float_series_iff: "float_series df n \<longleftrightarrow> (\<exists>xs. series df n = Inr (FloatCol xs))"
  by (auto simp: float_series_def split: sum.splits column.splits)

lemma datetime_series_iff: "datetime_series df n \<longleftrightarrow> (\<exists>ts. dt df n = Inr ts)"
  by (auto simp: datetime_series_def series_def dt_def split: sum.splits column.splits list.splits)









lemma add_shipping_delay_returns:
  assumes "''days_for_shipping_real'' \<in> set (labels df)
           \<and> ''days_for_shipment_scheduled'' \<in> set (labels df)
     \<longrightarrow> float_series df ''days_for_shipping_real'' \<and> float_series df ''days_for_shipment_scheduled''"
  shows "\<exists>df1. add_shipping_delay df = Inr df1"
  using assms
  by (auto simp: add_shipping_delay_def float_series_iff ebind_def col_sub_def col_arith_def)

lemma add_profit_margin_returns:
  assumes "''order_profit_per_order'' \<in> set (labels df) \<and> ''sales'' \<in> set (labels df)
     \<longrightarrow> float_series df ''order_profit_per_order'' \<and> float_series df ''sales''"
  shows "\<exists>df3. add_profit_margin df = Inr df3"
  using assms
  by (auto simp: add_profit_margin_def float_series_iff ebind_def col_div_def col_arith_def
      col_times_def col_round2_def np_where0_def)

lemma add_order_dates_returns:
  assumes "''order_date_dateorders'' \<in> set (labels df) \<longrightarrow> datetime_series df ''order_date_dateorders''"
  shows "\<exists>df2. add_order_dates df = Inr df2"
  using assms
  by (auto simp: add_order_dates_def datetime_series_iff ebind_def Let_def dt_setitem_other)


lemma labels_same: "columns_named df' n = columns_named df n \<Longrightarrow>
   n \<in> set (labels df') \<longleftrightarrow> n \<in> set (labels df)"
  by (simp add: labels_columns_named)

lemma float_series_same: "columns_named df' n = columns_named df n \<Longrightarrow>
   float_series df' n = float_series df n"
  by (simp add: float_series_def series_def)

lemma datetime_series_same: "columns_named df' n = columns_named df n \<Longrightarrow>
   datetime_series df' n = datetime_series df n"
  by (simp add: datetime_series_def series_def)

lemma add_derived_features_returns:
  assumes a: "''days_for_shipping_real'' \<in> set (labels df)
           \<and> ''days_for_shipment_scheduled'' \<in> set (labels df)
     \<longrightarrow> float_series df ''days_for_shipping_real'' \<and> float_series df ''days_for_shipment_scheduled''"
    and b: "''order_date_dateorders'' \<in> set (labels df) \<longrightarrow> datetime_series df ''order_date_dateorders''"
    and c: "''order_profit_per_order'' \<in> set (labels df) \<and> ''sales'' \<in> set (labels df)
     \<longrightarrow> float_series df ''order_profit_per_order'' \<and> float_series df ''sales''"
  shows "\<exists>df'. add_derived_features df = Inr ([AddedMsg], df')"
proof -
  from add_shipping_delay_returns[OF a] obtain df1 where 1: "add_shipping_delay df = Inr df1" ..
  have k1: "columns_named df1 n = columns_named df n" if "n \<noteq> ''shipping_delay_days''" for n
    using add_shipping_delay_other[OF 1 that] .
  have "''order_date_dateorders'' \<in> set (labels df1) \<longrightarrow> datetime_series df1 ''order_date_dateorders''"
    using b labels_same[OF k1, of "''order_date_dateorders''"]
      datetime_series_same[OF k1, of "''order_date_dateorders''"] by simp
  from add_order_dates_returns[OF this] obtain df2 where 2: "add_order_dates df1 = Inr df2" ..
  have k2: "columns_named df2 n = columns_named df n"
    if "n \<noteq> ''shipping_delay_days''" "n \<noteq> ''order_month''" "n \<noteq> ''order_year''"
       "n \<noteq> ''order_day_of_week''" for n
    using add_order_dates_other[OF 2, of n] k1[of n] that by simp
  have "''order_profit_per_order'' \<in> set (labels df2) \<and> ''sales'' \<in> set (labels df2)
     \<longrightarrow> float_series df2 ''order_profit_per_order'' \<and> float_series df2 ''sales''"
    using c labels_same[OF k2, of "''order_profit_per_order''"] labels_same[OF k2, of "''sales''"]
      float_series_same[OF k2, of "''order_profit_per_order''"] float_series_same[OF k2, of "''sales''"]
    by simp
  from add_profit_margin_returns[OF this] obtain df3 where 3: "add_profit_margin df2 = Inr df3" ..
  from 1 2 3 show ?thesis by (simp add: add_derived_features_def ebind_def)
qed


lemma convert_date_columns_unfold:
  "convert_date_columns parse df =
     convert_loop parse [''order_date_dateorders'', ''shipping_date_dateorders''] ([], df)"
  by (simp add: convert_date_columns_def date_cols_def)

lemma to_datetime_returns:
  "(\<forall>ps. c \<noteq> PeriodCol ps) \<Longrightarrow> \<exists>ts. to_datetime parse c = Inr (DatetimeCol ts)"
  by (cases c) (auto simp: to_datetime_def)

lemma convertible_series_iff:
  "convertible_series df n \<longleftrightarrow> (\<exists>c. series df n = Inr c \<and> (\<forall>ps. c \<noteq> PeriodCol ps))"
  by (auto simp: convertible_series_def split: sum.splits column.splits)

lemma labels_setitem_present: "n \<in> set (labels df) \<Longrightarrow> labels (setitem df n c) = labels df"
  by (auto simp: setitem_def labels_def split_def)

lemma convertible_series_same: "columns_named df' n = columns_named df n \<Longrightarrow>
   convertible_series df' n = convertible_series df n"
  by (simp add: convertible_series_def series_def)



lemma convert_date_columns_skip:
  assumes "''order_date_dateorders'' \<notin> set (labels df)"
    and "''shipping_date_dateorders'' \<notin> set (labels df)"
  shows "convert_date_columns parse df = Inr ([], df)"
  using assms by (simp add: convert_date_columns_unfold)

lemma remove_duplicates_no_rows: "nrows df = 0 \<Longrightarrow> remove_duplicates df = Inl ZeroDivisionError"
  by (simp add: remove_duplicates_def Let_def py_div_def ebind_def)


section \<open>Derived features of a sample table\<close>







section \<open>Totality of the cleaning steps\<close>


lemma add_derived_features_strings_raise:
  "add_derived_features
     [(''days_for_shipping_real'', ObjectCol [Some ''three'']),
      (''days_for_shipment_scheduled'', FloatCol [Some 4])] = Inl TypeError"
  by code_simp

text \<open>
  Apart from that, \<open>remove_duplicates\<close> divides by the number of rows when it reports:
  a file with a header line and no rows stops the pipeline with ZeroDivisionError.
\<close>

lemma pipeline_header_only_raises:
  "run_full_cleaning_pipeline header_only_files parse ''orders.csv'' = Inl ZeroDivisionError"
proof -
  have d: "drop_redundant_columns (standardize_columns [(''Sales'', ObjectCol []), (''Order Profit Per Order'', ObjectCol [])])
            = Inr ([DroppedMsg 0 []], [(''sales'', ObjectCol []), (''order_profit_per_order'', ObjectCol [])])"
    by code_simp
  have c: "convert_date_columns parse [(''sales'', ObjectCol []), (''order_profit_per_order'', ObjectCol [])]
            = Inr ([], [(''sales'', ObjectCol []), (''order_profit_per_order'', ObjectCol [])])"
    by (rule convert_date_columns_skip) (simp_all add: labels_def)
  have r: "remove_duplicates [(''sales'', ObjectCol []), (''order_profit_per_order'', ObjectCol [])]
            = Inl ZeroDivisionError"
    by (rule remove_duplicates_no_rows) (simp add: nrows_def col_len_def)
  show ?thesis
    by (simp add: run_full_cleaning_pipeline_def step_def load_raw_data_def header_only_files_def
        ebind_def d c r handle_missing_values_def Let_def)
qed





section \<open>Missing columns in feature engineering\<close>

lemma feature_steps_skip:
  "''order_item_discount'' \<notin> set (labels df) \<Longrightarrow> add_is_high_discount S df = Inr df"
  "''order_item_quantity'' \<notin> set (labels df) \<Longrightarrow> add_is_bulk_order df = Inr df"
  "''order_day_of_week'' \<notin> set (labels df) \<Longrightarrow> add_is_weekend_order df = Inr df"
  "''profit_margin_pct'' \<notin> set (labels df) \<Longrightarrow> add_extreme_margin S df = Inr df"
  "''days_for_shipping_real'' \<notin> set (labels df) \<Longrightarrow> add_fast_ship df = Inr df"
  "''order_profit_per_order'' \<notin> set (labels df) \<Longrightarrow> add_negative_profit df = Inr df"
  by (simp_all add: add_is_high_discount_def add_is_bulk_order_def add_is_weekend_order_def
      add_extreme_margin_def add_fast_ship_def add_negative_profit_def)

lemma add_order_value_bucket_missing:
  "''sales'' \<notin> set (labels df) \<Longrightarrow> add_order_value_bucket S df = Inl KeyError"
  by (simp add: add_order_value_bucket_def ebind_def series_KeyError[THEN iffD2])

lemma add_order_value_bucket_labels:
  "add_order_value_bucket S df = Inr df1 \<Longrightarrow>
     set (labels df1) = insert ''order_value_bucket'' (set (labels df))"
  by (auto simp: add_order_value_bucket_def ebind_Inr labels_setitem)

text \<open>
  The feature-engineering functions do test the existence of most columns they read.
  On a table that has none of \<open>profit_margin_pct\<close>, \<open>days_for_shipping_real\<close> and
  \<open>order_profit_per_order\<close>, \<open>create_fraud_detection_features\<close> skips its three features
  and returns the table, even with a statistics library that would raise on any call.
\<close>

theorem feature_functions_missing_columns_counterexample:
  "create_fraud_detection_features failing_stats quantity_only = Inr quantity_only"
  by code_simp

text \<open>
  C9 (as amended). Of the derived features of \<open>create_delivery_prediction_features\<close> and
  \<open>create_fraud_detection_features\<close>, only \<open>order_value_bucket\<close> is computed without a
  column-existence check: on every table without a \<open>sales\<close> column
  \<open>create_delivery_prediction_features\<close> propagates the library's KeyError. Every other
  feature is guarded and skipped when its column is missing: without
  \<open>order_item_discount\<close>, \<open>order_item_quantity\<close> and \<open>order_day_of_week\<close> the delivery
  function does nothing but the bucketing, and without \<open>profit_margin_pct\<close>,
  \<open>days_for_shipping_real\<close> and \<open>order_profit_per_order\<close> the fraud function returns the
  table unchanged.
\<close>

theorem feature_functions_missing_columns:
  "(''sales'' \<notin> set (labels df) \<longrightarrow> create_delivery_prediction_features S df = Inl KeyError)
   \<and> (''order_item_discount'' \<notin> set (labels df) \<and> ''order_item_quantity'' \<notin> set (labels df)
        \<and> ''order_day_of_week'' \<notin> set (labels df)
      \<longrightarrow> create_delivery_prediction_features S df = add_order_value_bucket S df)
   \<and> (''order_item_discount'' \<notin> set (labels df) \<longrightarrow> add_is_high_discount S df = Inr df)
   \<and> (''order_item_quantity'' \<notin> set (labels df) \<longrightarrow> add_is_bulk_order df = Inr df)
   \<and> (''order_day_of_week'' \<notin> set (labels df) \<longrightarrow> add_is_weekend_order df = Inr df)
   \<and> (''profit_margin_pct'' \<notin> set (labels df) \<and> ''days_for_shipping_real'' \<notin> set (labels df)
        \<and> ''order_profit_per_order'' \<notin> set (labels df)
      \<longrightarrow> create_fraud_detection_features S df = Inr df)
   \<and> (''profit_margin_pct'' \<notin> set (labels df) \<longrightarrow> add_extreme_margin S df = Inr df)
   \<and> (''days_for_shipping_real'' \<notin> set (labels df) \<longrightarrow> add_fast_ship df = Inr df)
   \<and> (''order_profit_per_order'' \<notin> set (labels df) \<longrightarrow> add_negative_profit df = Inr df)"
proof (intro conjI impI)
  assume "''sales'' \<notin> set (labels df)"
  then show "create_delivery_prediction_features S df = Inl KeyError"
    by (simp add: create_delivery_prediction_features_def add_order_value_bucket_missing ebind_def)
next
  assume a: "''order_item_discount'' \<notin> set (labels df) \<and> ''order_item_quantity'' \<notin> set (labels df)
        \<and> ''order_day_of_week'' \<notin> set (labels df)"
  show "create_delivery_prediction_features S df = add_order_value_bucket S df"
  proof (cases "add_order_value_bucket S df")
    case (Inl e)
    then show ?thesis by (simp add: create_delivery_prediction_features_def ebind_def)
  next
    case (Inr df1)
    then have "set (labels df1) = insert ''order_value_bucket'' (set (labels df))"
      by (rule add_order_value_bucket_labels)
    with a have "''order_item_discount'' \<notin> set (labels df1)" "''order_item_quantity'' \<notin> set (labels df1)"
      "''order_day_of_week'' \<notin> set (labels df1)" by simp_all
    then show ?thesis using Inr
      by (simp add: create_delivery_prediction_features_def ebind_def feature_steps_skip)
  qed
next
  assume "''profit_margin_pct'' \<notin> set (labels df) \<and> ''days_for_shipping_real'' \<notin> set (labels df)
        \<and> ''order_profit_per_order'' \<notin> set (labels df)"
  then show "create_fraud_detection_features S df = Inr df"
    by (simp add: create_fraud_detection_features_def ebind_def feature_steps_skip)
qed (simp_all add: feature_steps_skip)

lemma quantity_only_labels: "labels quantity_only = [''order_item_quantity'']"
  by code_simp

theorem feature_functions_missing_columns_witness:
  "create_delivery_prediction_features failing_stats quantity_only = Inl KeyError
   \<and> create_fraud_detection_features failing_stats quantity_only = Inr quantity_only
   \<and> add_is_weekend_order quantity_only = Inr quantity_only"
  using feature_functions_missing_columns [of quantity_only failing_stats]
  by (simp add: quantity_only_labels)

lemma fast_ship_example:
  "create_fraud_detection_features failing_stats [(''days_for_shipping_real'', FloatCol [Some 1, Some 4, None])]
     = Inr [(''days_for_shipping_real'', FloatCol [Some 1, Some 4, None]),
            (''fast_ship'', FloatCol [Some 1, Some 0, Some 0])]"
  by code_simp

section \<open>The end-to-end scenario\<close>


lemma nrows_standardize [simp]: "nrows (standardize_columns df) = nrows df"
  by (cases df) (auto simp: standardize_columns_def nrows_def)

lemma wf_standardize [simp]: "wf_frame (standardize_columns df) = wf_frame df"
  by (auto simp: wf_frame_def list_all_iff standardize_columns_def nrows_standardize[unfolded standardize_columns_def])

lemma rows_of_standardize [simp]: "rows_of (standardize_columns df) = rows_of df"
  unfolding rows_of_def nrows_standardize
  by (simp add: standardize_columns_def split_def comp_def)

lemma nrows_eq_len: "wf_frame df \<Longrightarrow> (n, c) \<in> set df \<Longrightarrow> nrows df = col_len c"
  by (simp add: wf_frame_len)

lemma nrows_filter: "wf_frame df \<Longrightarrow> filter P df \<noteq> [] \<Longrightarrow> nrows (filter P df) = nrows df"
proof -
  assume wf: "wf_frame df" and ne: "filter P df \<noteq> []"
  then obtain n c rest where f: "filter P df = (n, c) # rest" by (cases "filter P df") auto
  then have "(n, c) \<in> set (filter P df)" by simp
  then have "(n, c) \<in> set df" by simp
  with wf have "col_len c = nrows df" by (rule wf_frame_len)
  with f show ?thesis by (simp add: nrows_def)
qed

lemma wf_filter: "wf_frame df \<Longrightarrow> wf_frame (filter P df)"
proof (cases "filter P df = []")
  case True then show ?thesis by (simp add: wf_frame_def)
next
  case False
  assume wf: "wf_frame df"
  from nrows_filter[OF wf False] wf show ?thesis
    by (auto simp: wf_frame_def list_all_iff)
qed

lemma nrows_setitem: "wf_frame df \<Longrightarrow> df \<noteq> [] \<Longrightarrow> col_len c = nrows df \<Longrightarrow>
   nrows (setitem df n c) = nrows df"
  by (cases df) (auto simp: setitem_def nrows_def split: if_splits)

lemma wf_setitem: "wf_frame df \<Longrightarrow> df \<noteq> [] \<Longrightarrow> col_len c = nrows df \<Longrightarrow>
   wf_frame (setitem df n c)"
proof -
  assume wf: "wf_frame df" and ne: "df \<noteq> []" and c: "col_len c = nrows df"
  have n: "nrows (setitem df n c) = nrows df" using wf ne c by (rule nrows_setitem)
  show ?thesis unfolding wf_frame_def n using wf c
    by (auto simp: setitem_def wf_frame_def list_all_iff split: if_splits)
qed

lemma labels_nonempty: "n \<in> set (labels df) \<Longrightarrow> df \<noteq> []"
  by (auto simp: labels_def)

lemma series_nonempty: "series df n = Inr c \<Longrightarrow> df \<noteq> []"
  using series_mem by fastforce

lemma map_filter_zip: "map f (filter P xs) = map snd (filter (\<lambda>p. P (fst p)) (zip xs (map f xs)))"
  by (induction xs) auto

lemma remdups_map_le: "length (remdups (map g xs)) \<le> length (remdups xs)"
  by (simp add: length_remdups_card_conv card_image_le)

lemma rows_of_filter:
  assumes wf: "wf_frame df" and ne: "filter P df \<noteq> []"
  shows "rows_of (filter P df)
           = map (\<lambda>r. map snd (filter (\<lambda>p. P (fst p)) (zip df r))) (rows_of df)"
  unfolding rows_of_def nrows_filter[OF wf ne]
  by (simp add: comp_def map_filter_zip[of _ P df])

lemma remdups_rows_filter:
  assumes wf: "wf_frame df"
  shows "length (remdups (rows_of (filter P df))) \<le> length (remdups (rows_of df))"
proof (cases "filter P df = []")
  case True
  then show ?thesis by (simp add: rows_of_def nrows_def)
next
  case False
  show ?thesis unfolding rows_of_filter[OF wf False] by (rule remdups_map_le)
qed

lemma series_unique: "series df n = Inr c \<Longrightarrow> (n, old) \<in> set df \<Longrightarrow> old = c"
proof -
  assume "series df n = Inr c" and m: "(n, old) \<in> set df"
  then have "columns_named df n = [c]" by (auto simp: series_def split: list.splits)
  moreover have "old \<in> set (columns_named df n)" using m by (force simp: columns_named_def)
  ultimately show ?thesis by simp
qed

lemma series_labels: "series df n = Inr c \<Longrightarrow> n \<in> set (labels df)"
  using series_KeyError[of df n] by auto

lemma rows_of_setitem_map:
  assumes wf: "wf_frame df" and s: "series df n = Inr c" and d: "cells d = map F (cells c)"
  shows "rows_of (setitem df n d)
           = map (\<lambda>r. map (\<lambda>p. if fst (fst p) = n then F (snd p) else snd p) (zip df r)) (rows_of df)"
proof -
  have mem: "(n, c) \<in> set df" using s by (rule series_mem)
  have len: "col_len d = nrows df" using d wf_frame_len[OF wf mem] by (simp add: col_len_def)
  have ne: "df \<noteq> []" using mem by auto
  have nr: "nrows (setitem df n d) = nrows df" using wf ne len by (rule nrows_setitem)
  have lab: "n \<in> set (labels df)" using s by (rule series_labels)
  have row: "map (\<lambda>(m, c'). cells c' ! i) (setitem df n d)
        = map (\<lambda>p. if fst (fst p) = n then F (snd p) else snd p)
            (zip df (map (\<lambda>(m, c'). cells c' ! i) df))" if i: "i < nrows df" for i
  proof -
    have "cells d ! i = F (cells old ! i)" if "(n, old) \<in> set df" for old
    proof -
      have "old = c" using s that by (rule series_unique)
      moreover have "i < length (cells c)" using i wf_frame_len[OF wf mem] by (simp add: col_len_def)
      ultimately show ?thesis using d by simp
    qed
    then have "map (\<lambda>(m, c'). cells c' ! i) (setitem df n d)
        = map (\<lambda>q. if fst q = n then F (cells (snd q) ! i) else cells (snd q) ! i) df"
      using lab by (auto simp: setitem_def split_def)
    also have "\<dots> = map (\<lambda>p. if fst (fst p) = n then F (snd p) else snd p)
            (zip df (map (\<lambda>(m, c'). cells c' ! i) df))"
      by (simp add: zip_map2 comp_def split_def zip_same_conv_map)
    finally show ?thesis .
  qed
  show ?thesis unfolding rows_of_def nr using row by (simp add: comp_def)
qed

lemma to_datetime_parsed:
  "(\<forall>ts. c \<noteq> DatetimeCol ts) \<Longrightarrow> (\<forall>ps. c \<noteq> PeriodCol ps) \<Longrightarrow>
     to_datetime parse c
       = Inr (DatetimeCol (map (\<lambda>x. case x of Null \<Rightarrow> None | _ \<Rightarrow> parse c x) (cells c)))"
  by (cases c; hypsubst; simp add: to_datetime_def)

lemma to_datetime_cells:
  assumes "to_datetime parse c = Inr d"
  shows "(\<exists>F. cells d = map F (cells c)) \<and> (\<exists>ts. d = DatetimeCol ts)"
proof (cases "\<exists>ts. c = DatetimeCol ts")
  case True
  with assms have "d = c" by (auto simp: to_datetime_def)
  then have "cells d = map (\<lambda>x. x) (cells c)" by simp
  then show ?thesis using True \<open>d = c\<close> by blast
next
  case False
  have "\<forall>ps. c \<noteq> PeriodCol ps" using assms by (auto simp: to_datetime_def)
  with False assms
  have d: "d = DatetimeCol (map (\<lambda>x. case x of Null \<Rightarrow> None | _ \<Rightarrow> parse c x) (cells c))"
    by (simp add: to_datetime_parsed)
  have "cells d = map (\<lambda>x. case (case x of Null \<Rightarrow> None | _ \<Rightarrow> parse c x) of
                None \<Rightarrow> Null | Some v \<Rightarrow> Ts v) (cells c)"
    unfolding d by (simp add: comp_def)
  then show ?thesis using d by blast
qed

lemma columns_named_filter_labels:
  "n \<notin> set ls \<Longrightarrow> columns_named (filter (\<lambda>(m, c). m \<notin> set ls) df) n = columns_named df n"
  by (induction df) (auto simp: columns_named_def)

lemma labels_filter_labels:
  "set (labels (filter (\<lambda>(m, c). m \<notin> set ls) df)) = set (labels df) - set ls"
  by (force simp: labels_def)

lemma columns_named_map_columns:
  "columns_named (map (\<lambda>(m, c). (m, f c)) df) n = map f (columns_named df n)"
  by (induction df) (auto simp: columns_named_def)

lemma columns_named_drop_duplicates:
  "columns_named (drop_duplicates df) n
     = map (col_take (first_occurrences (rows_of df))) (columns_named df n)"
  by (simp add: drop_duplicates_def Let_def columns_named_map_columns)

lemma columns_named_setitem_present:
  "m \<in> set (labels df) \<Longrightarrow> columns_named (setitem df m c) m = map (\<lambda>x. c) (columns_named df m)"
  unfolding setitem_def columns_named_def
  by (simp add: filter_map comp_def split_def if_distrib cong: if_cong)

lemma series_setitem_same: "series df n = Inr c \<Longrightarrow> series (setitem df n d) n = Inr d"
proof -
  assume s: "series df n = Inr c"
  then have c: "columns_named df n = [c]" by (auto simp: series_def split: list.splits)
  have "n \<in> set (labels df)" using s by (rule series_labels)
  then show ?thesis by (simp add: series_def columns_named_setitem_present c)
qed

lemma valid_dates_convertible: "valid_dates parse df n \<Longrightarrow> convertible_series df n"
  by (auto simp: valid_dates_def convertible_series_def to_datetime_def
      split: sum.splits column.splits)

lemma convert_step_full:
  assumes wf: "wf_frame df" and ok: "col \<in> set (labels df) \<longrightarrow> convertible_series df col"
  shows "\<exists>out' df'. (\<forall>rest out. convert_loop parse (col # rest) (out, df)
                                  = convert_loop parse rest (out @ out', df'))
           \<and> labels df' = labels df
           \<and> (\<forall>n. n \<noteq> col \<longrightarrow> columns_named df' n = columns_named df n)
           \<and> wf_frame df' \<and> nrows df' = nrows df
           \<and> length (remdups (rows_of df')) \<le> length (remdups (rows_of df))
           \<and> (col \<in> set (labels df) \<longrightarrow> datetime_series df' col)"
proof (cases "col \<in> set (labels df)")
  case False
  then have "\<forall>rest out. convert_loop parse (col # rest) (out, df) = convert_loop parse rest (out @ [], df)"
    by simp
  then show ?thesis using False wf by blast
next
  case True
  with ok obtain c where c: "series df col = Inr c" "\<forall>ps. c \<noteq> PeriodCol ps"
    by (auto simp: convertible_series_iff)
  from to_datetime_returns[OF c(2)] obtain ts where ts: "to_datetime parse c = Inr (DatetimeCol ts)" ..
  from to_datetime_cells[OF ts] obtain F where F: "cells (DatetimeCol ts) = map F (cells c)" by blast
  let ?df' = "setitem df col (DatetimeCol ts)"
  have mem: "(col, c) \<in> set df" using c(1) by (rule series_mem)
  have len: "col_len (DatetimeCol ts) = nrows df"
    using F wf_frame_len[OF wf mem] by (simp add: col_len_def)
  have ne: "df \<noteq> []" using mem by auto
  have 1: "\<forall>rest out. convert_loop parse (col # rest) (out, df)
          = convert_loop parse rest (out @ [ConvertedMsg col], ?df')"
    using True c ts by (simp add: ebind_def)
  have 2: "labels ?df' = labels df" using True by (rule labels_setitem_present)
  have 3: "\<forall>n. n \<noteq> col \<longrightarrow> columns_named ?df' n = columns_named df n"
    by (simp add: columns_named_setitem_other)
  have 4: "wf_frame ?df'" using wf ne len by (rule wf_setitem)
  have 5: "nrows ?df' = nrows df" using wf ne len by (rule nrows_setitem)
  have 6: "length (remdups (rows_of ?df')) \<le> length (remdups (rows_of df))"
    unfolding rows_of_setitem_map[OF wf c(1) F] by (rule remdups_map_le)
  have 7: "datetime_series ?df' col"
    using series_setitem_same[OF c(1), of "DatetimeCol ts"] by (simp add: datetime_series_def)
  from 1 2 3 4 5 6 7 show ?thesis by blast
qed

lemma convert_date_columns_full:
  assumes wf: "wf_frame df"
    and a: "convertible_series df ''order_date_dateorders''"
    and b: "convertible_series df ''shipping_date_dateorders''"
  shows "\<exists>out dfc. convert_date_columns parse df = Inr (out, dfc)
     \<and> labels dfc = labels df
     \<and> (\<forall>n. n \<noteq> ''order_date_dateorders'' \<and> n \<noteq> ''shipping_date_dateorders''
              \<longrightarrow> columns_named dfc n = columns_named df n)
     \<and> wf_frame dfc \<and> nrows dfc = nrows df
     \<and> length (remdups (rows_of dfc)) \<le> length (remdups (rows_of df))
     \<and> datetime_series dfc ''order_date_dateorders''"
proof -
  have la: "''order_date_dateorders'' \<in> set (labels df)"
    using a by (auto simp: convertible_series_iff dest: series_labels)
  from convert_step_full[OF wf, of "''order_date_dateorders''" parse] a obtain out1 df1 where
    1: "\<And>rest out. convert_loop parse (''order_date_dateorders'' # rest) (out, df)
                                  = convert_loop parse rest (out @ out1, df1)"
    and l1: "labels df1 = labels df"
    and k1: "\<And>n. n \<noteq> ''order_date_dateorders'' \<Longrightarrow> columns_named df1 n = columns_named df n"
    and w1: "wf_frame df1" and n1: "nrows df1 = nrows df"
    and r1: "length (remdups (rows_of df1)) \<le> length (remdups (rows_of df))"
    and d1: "datetime_series df1 ''order_date_dateorders''"
    using la by blast
  have "''shipping_date_dateorders'' \<in> set (labels df1)
                \<longrightarrow> convertible_series df1 ''shipping_date_dateorders''"
    using b convertible_series_same[OF k1, of "''shipping_date_dateorders''"] by simp
  from convert_step_full[OF w1 this, of parse] obtain out2 df2 where
    2: "\<And>rest out. convert_loop parse (''shipping_date_dateorders'' # rest) (out, df1)
                                  = convert_loop parse rest (out @ out2, df2)"
    and l2: "labels df2 = labels df1"
    and k2: "\<And>n. n \<noteq> ''shipping_date_dateorders'' \<Longrightarrow> columns_named df2 n = columns_named df1 n"
    and w2: "wf_frame df2" and n2: "nrows df2 = nrows df1"
    and r2: "length (remdups (rows_of df2)) \<le> length (remdups (rows_of df1))"
    by blast
  have res: "convert_date_columns parse df = Inr (out1 @ out2, df2)"
    unfolding convert_date_columns_unfold 1 2 by simp
  have d2: "datetime_series df2 ''order_date_dateorders''"
    using d1 datetime_series_same[OF k2, of "''order_date_dateorders''"] by simp
  have k: "\<forall>n. n \<noteq> ''order_date_dateorders'' \<and> n \<noteq> ''shipping_date_dateorders''
              \<longrightarrow> columns_named df2 n = columns_named df n"
    using k1 k2 by simp
  from res l1 l2 k w2 n1 n2 r1 r2 d2 show ?thesis
    by (intro exI[of _ "out1 @ out2"] exI[of _ df2]) simp
qed

lemma dt_mem: "dt df n = Inr ts \<Longrightarrow> (n, DatetimeCol ts) \<in> set df"
proof -
  assume "dt df n = Inr ts"
  then have "columns_named df n = [DatetimeCol ts]"
    by (auto simp: dt_def split: list.splits column.splits)
  then have "DatetimeCol ts \<in> set (columns_named df n)" by simp
  then show ?thesis by (auto simp: columns_named_def)
qed

lemma add_shipping_delay_wf:
  assumes wf: "wf_frame df" and r: "add_shipping_delay df = Inr df1"
  shows "wf_frame df1 \<and> nrows df1 = nrows df"
proof (cases "''days_for_shipping_real'' \<in> set (labels df)
              \<and> ''days_for_shipment_scheduled'' \<in> set (labels df)")
  case False
  with r have "df1 = df" by (auto simp: add_shipping_delay_def)
  with wf show ?thesis by simp
next
  case True
  with r obtain xs ys where x: "series df ''days_for_shipping_real'' = Inr (FloatCol xs)"
    and y: "series df ''days_for_shipment_scheduled'' = Inr (FloatCol ys)"
    and d: "df1 = setitem df ''shipping_delay_days'' (FloatCol (map2 (lift2 (\<lambda>a b. Some (a - b))) xs ys))"
    by (auto simp: add_shipping_delay_def ebind_Inr col_sub_def col_arith_Inr)
  have "col_len (FloatCol (map2 (lift2 (\<lambda>a b. Some (a - b))) xs ys)) = nrows df"
    using series_len[OF wf x] series_len[OF wf y] by (simp add: col_len_def)
  moreover have "df \<noteq> []" using x by (rule series_nonempty)
  ultimately show ?thesis unfolding d using wf by (simp add: wf_setitem nrows_setitem)
qed

lemma add_profit_margin_wf:
  assumes wf: "wf_frame df" and r: "add_profit_margin df = Inr df3"
  shows "wf_frame df3 \<and> nrows df3 = nrows df"
proof (cases "''order_profit_per_order'' \<in> set (labels df) \<and> ''sales'' \<in> set (labels df)")
  case False
  with r have "df3 = df" by (auto simp: add_profit_margin_def)
  with wf show ?thesis by simp
next
  case True
  with r obtain ps ss where p: "series df ''order_profit_per_order'' = Inr (FloatCol ps)"
    and s: "series df ''sales'' = Inr (FloatCol ss)"
    and d: "df3 = setitem df ''profit_margin_pct''
         (FloatCol (map2 (\<lambda>b x. if b then x else Some 0) (col_ne0 (FloatCol ss))
              (map (map_option round2) (map (map_option (\<lambda>x. x * 100))
                 (map2 (lift2 (\<lambda>x y. if y = 0 then None else Some (x / y))) ps ss)))))"
    by (auto simp: add_profit_margin_def ebind_Inr col_div_def col_arith_Inr col_times_Inr
      col_round2_Inr np_where0_Inr)
  have "col_len (FloatCol (map2 (\<lambda>b x. if b then x else Some 0) (col_ne0 (FloatCol ss))
              (map (map_option round2) (map (map_option (\<lambda>x. x * 100))
                 (map2 (lift2 (\<lambda>x y. if y = 0 then None else Some (x / y))) ps ss))))) = nrows df"
    using series_len[OF wf p] series_len[OF wf s] by (simp add: col_len_def col_ne0_def)
  moreover have "df \<noteq> []" using s by (rule series_nonempty)
  ultimately show ?thesis unfolding d using wf by (simp add: wf_setitem nrows_setitem)
qed

lemma dt_len: "wf_frame df \<Longrightarrow> dt df n = Inr ts \<Longrightarrow> length ts = nrows df"
  using wf_frame_len[of df n "DatetimeCol ts"] dt_mem[of df n ts] by (simp add: col_len_def)

lemma setitem_ok:
  assumes "wf_frame df" "df \<noteq> []" "col_len c = nrows df"
  shows "wf_frame (setitem df n c) \<and> nrows (setitem df n c) = nrows df \<and> setitem df n c \<noteq> []"
proof -
  have "setitem df n c \<noteq> []" using assms(2) by (simp add: setitem_def)
  with assms show ?thesis by (simp add: wf_setitem nrows_setitem)
qed

lemma add_order_dates_wf:
  assumes wf: "wf_frame df" and r: "add_order_dates df = Inr df2"
  shows "wf_frame df2 \<and> nrows df2 = nrows df"
proof (cases "''order_date_dateorders'' \<in> set (labels df)")
  case False
  with r have "df2 = df" by (auto simp: add_order_dates_def)
  with wf show ?thesis by simp
next
  case True
  then have ne: "df \<noteq> []" by (rule labels_nonempty)
  from r True obtain ts where t: "dt df ''order_date_dateorders'' = Inr ts"
    and d: "df2 = setitem (setitem (setitem df ''order_month'' (to_period_M ts))
                    ''order_year'' (dt_year ts)) ''order_day_of_week'' (dt_day_name ts)"
    by (auto simp: add_order_dates_def ebind_Inr Let_def dt_setitem_other)
  have l: "length ts = nrows df" using wf t by (rule dt_len)
  let ?a = "setitem df ''order_month'' (to_period_M ts)"
  have a: "wf_frame ?a \<and> nrows ?a = nrows df \<and> ?a \<noteq> []"
    using setitem_ok[OF wf ne, of "to_period_M ts" "''order_month''"] l
    by (simp add: to_period_M_def col_len_def)
  let ?b = "setitem ?a ''order_year'' (dt_year ts)"
  have b: "wf_frame ?b \<and> nrows ?b = nrows df \<and> ?b \<noteq> []"
    using setitem_ok[of ?a "dt_year ts" "''order_year''"] a l
    by (simp add: dt_year_def col_len_def)
  show ?thesis unfolding d
    using setitem_ok[of ?b "dt_day_name ts" "''order_day_of_week''"] b l
    by (simp add: dt_day_name_def col_len_def)
qed

lemma add_derived_features_wf:
  assumes wf: "wf_frame df" and r: "add_derived_features df = Inr (out, df')"
  shows "wf_frame df' \<and> nrows df' = nrows df"
proof -
  from r obtain df1 df2 where 1: "add_shipping_delay df = Inr df1"
    and 2: "add_order_dates df1 = Inr df2" and 3: "add_profit_margin df2 = Inr df'"
    by (auto simp: add_derived_features_Inr)
  from add_shipping_delay_wf[OF wf 1] have w1: "wf_frame df1" and n1: "nrows df1 = nrows df"
    by simp_all
  from add_order_dates_wf[OF w1 2] have w2: "wf_frame df2" and n2: "nrows df2 = nrows df1"
    by simp_all
  from add_profit_margin_wf[OF w2 3] n1 n2 show ?thesis by simp
qed

lemma add_derived_features_labels:
  assumes "add_derived_features df = Inr (out, df')"
  shows "set (labels df') \<subseteq> set (labels df) \<union>
     {''shipping_delay_days'', ''order_month'', ''order_year'', ''order_day_of_week'',
      ''profit_margin_pct''}"
proof -
  from assms obtain df1 df2 where 1: "add_shipping_delay df = Inr df1"
    and 2: "add_order_dates df1 = Inr df2" and 3: "add_profit_margin df2 = Inr df'"
    by (auto simp: add_derived_features_Inr)
  have "n \<in> set (labels df)" if "n \<in> set (labels df')" "n \<noteq> ''shipping_delay_days''"
    "n \<noteq> ''order_month''" "n \<noteq> ''order_year''" "n \<noteq> ''order_day_of_week''"
    "n \<noteq> ''profit_margin_pct''" for n
    using that add_shipping_delay_other[OF 1, of n] add_order_dates_other[OF 2, of n]
      add_profit_margin_other[OF 3, of n] by (simp add: labels_columns_named)
  then show ?thesis by blast
qed

lemma series_drop_duplicates:
  "series df n = Inr c \<Longrightarrow>
     series (drop_duplicates df) n = Inr (col_take (first_occurrences (rows_of df)) c)"
  by (auto simp: series_def columns_named_drop_duplicates split: list.splits)

lemma float_series_drop_duplicates: "float_series (drop_duplicates df) n = float_series df n"
proof -
  have "(\<exists>xs. col_take idx c = FloatCol xs) \<longleftrightarrow> (\<exists>xs. c = FloatCol xs)" for idx c
    by (cases c) auto
  then show ?thesis
    by (auto simp: float_series_iff series_def columns_named_drop_duplicates split: list.splits)
qed

lemma datetime_series_drop_duplicates: "datetime_series (drop_duplicates df) n = datetime_series df n"
proof -
  have "(\<exists>xs. col_take idx c = DatetimeCol xs) \<longleftrightarrow> (\<exists>xs. c = DatetimeCol xs)" for idx c
    by (cases c) auto
  then show ?thesis
    by (auto simp: datetime_series_def series_def columns_named_drop_duplicates
        split: list.splits sum.splits column.splits)
qed

lemma first_occurrence_of_row:
  assumes "k < length rs"
  shows "\<exists>j<length (first_occurrences rs). first_occurrences rs ! j < length rs
            \<and> rs ! (first_occurrences rs ! j) = rs ! k"
proof -
  have "rs ! k \<in> set (map (\<lambda>i. rs ! i) (first_occurrences rs))"
    using assms by (simp only: set_first_occurrences) simp
  then obtain i where i: "i \<in> set (first_occurrences rs)" "rs ! i = rs ! k" by auto
  then obtain j where "j < length (first_occurrences rs)" "first_occurrences rs ! j = i"
    by (auto simp: in_set_conv_nth)
  then show ?thesis using i first_occurrences_bound[of i rs] by auto
qed

lemma equal_rows_cells:
  assumes "rows_of df ! i = rows_of df ! k" "i < nrows df" "k < nrows df" "(n, c) \<in> set df"
  shows "cells c ! i = cells c ! k"
proof -
  from assms(1-3) have "map (\<lambda>(n, c). cells c ! i) df = map (\<lambda>(n, c). cells c ! k) df"
    by (simp add: rows_of_def)
  then have "\<forall>p\<in>set df. (\<lambda>(n, c). cells c ! i) p = (\<lambda>(n, c). cells c ! k) p"
    by (simp only: map_eq_conv)
  with assms(4) show ?thesis by auto
qed

lemma float_cells_eq:
  "i < length xs \<Longrightarrow> k < length xs \<Longrightarrow> cells (FloatCol xs) ! i = cells (FloatCol xs) ! k
     \<Longrightarrow> xs ! i = xs ! k"
  by (auto split: option.splits)

lemma length_first_occurrences_remdups:
  "length (first_occurrences rs) = length (remdups rs)"
proof -
  have "length (first_occurrences rs) = length (map (\<lambda>i. rs ! i) (first_occurrences rs))"
    by simp
  also have "\<dots> = card (set (map (\<lambda>i. rs ! i) (first_occurrences rs)))"
    using distinct_first_occurrences[of rs] by (simp only: distinct_card)
  also have "\<dots> = card (set rs)" by (simp only: set_first_occurrences)
  finally show ?thesis by (simp add: length_remdups_card_conv)
qed

lemma nrows_drop_duplicates:
  "df \<noteq> [] \<Longrightarrow> nrows (drop_duplicates df) = length (remdups (rows_of df))"
  by (simp add: drop_duplicates_def Let_def nrows_take_rows length_first_occurrences_remdups)

lemma pipeline_Inr:
  assumes "files path = Some raw"
    and "drop_redundant_columns (standardize_columns raw) = Inr (o1, dfd)"
    and "convert_date_columns parse dfd = Inr (o2, dfc)"
    and "remove_duplicates dfc = Inr (o3, dfu)"
    and "add_derived_features dfu = Inr (o4, df')"
  shows "\<exists>out. run_full_cleaning_pipeline files parse path = Inr (out, df')"
  using assms
  by (simp add: run_full_cleaning_pipeline_def step_def load_raw_data_def ebind_def
      handle_missing_values_def Let_def)

lemma list_ex_zip_nth:
  "list_ex (\<lambda>(s, p). P s p) (zip ss ps) \<Longrightarrow>
     \<exists>k. k < length ss \<and> k < length ps \<and> P (ss ! k) (ps ! k)"
  by (auto simp: list_ex_iff in_set_zip)

lemma pii_not_used:
  "''sales'' \<notin> set cols_to_drop" "''order_profit_per_order'' \<notin> set cols_to_drop"
  "''order_date_dateorders'' \<notin> set cols_to_drop" "''shipping_date_dateorders'' \<notin> set cols_to_drop"
  "''days_for_shipping_real'' \<notin> set cols_to_drop" "''days_for_shipment_scheduled'' \<notin> set cols_to_drop"
  "''shipping_delay_days'' \<notin> set cols_to_drop" "''order_month'' \<notin> set cols_to_drop"
  "''order_year'' \<notin> set cols_to_drop" "''order_day_of_week'' \<notin> set cols_to_drop"
  "''profit_margin_pct'' \<notin> set cols_to_drop"
  by (simp_all add: cols_to_drop_def)

lemma scenario_sales:
  assumes "case (series df ''sales'', series df ''order_profit_per_order'') of
           (Inr (FloatCol ss), Inr (FloatCol ps)) \<Rightarrow>
              list_ex (\<lambda>(s, p). s = Some 0 \<and> p = Some 50) (zip ss ps)
         | _ \<Rightarrow> False"
  shows "\<exists>ss ps. series df ''sales'' = Inr (FloatCol ss)
        \<and> series df ''order_profit_per_order'' = Inr (FloatCol ps)
        \<and> list_ex (\<lambda>(s, p). s = Some 0 \<and> p = Some 50) (zip ss ps)"
proof (cases "series df ''sales''")
  case (Inl e)
  with assms show ?thesis by simp
next
  case s: (Inr a)
  show ?thesis
  proof (cases "series df ''order_profit_per_order''")
    case (Inl e)
    with assms s show ?thesis by (cases a) simp_all
  next
    case p: (Inr b)
    with assms s show ?thesis by (cases a; cases b) simp_all
  qed
qed

lemma scenario_facts:
  assumes "end_to_end_scenario parse raw"
  shows "wf_frame raw" "nrows raw = 10" "length (remdups (rows_of raw)) = 8"
    "\<exists>ss ps. series (standardize_columns raw) ''sales'' = Inr (FloatCol ss)
        \<and> series (standardize_columns raw) ''order_profit_per_order'' = Inr (FloatCol ps)
        \<and> list_ex (\<lambda>(s, p). s = Some 0 \<and> p = Some 50) (zip ss ps)"
    "valid_dates parse (standardize_columns raw) ''order_date_dateorders''"
    "valid_dates parse (standardize_columns raw) ''shipping_date_dateorders''"
    "''days_for_shipping_real'' \<in> set (labels (standardize_columns raw))
            \<and> ''days_for_shipment_scheduled'' \<in> set (labels (standardize_columns raw))
          \<longrightarrow> float_series (standardize_columns raw) ''days_for_shipping_real''
            \<and> float_series (standardize_columns raw) ''days_for_shipment_scheduled''"
proof -
  from assms show "wf_frame raw" "nrows raw = 10" "length (remdups (rows_of raw)) = 8"
    "valid_dates parse (standardize_columns raw) ''order_date_dateorders''"
    "valid_dates parse (standardize_columns raw) ''shipping_date_dateorders''"
    "''days_for_shipping_real'' \<in> set (labels (standardize_columns raw))
            \<and> ''days_for_shipment_scheduled'' \<in> set (labels (standardize_columns raw))
          \<longrightarrow> float_series (standardize_columns raw) ''days_for_shipping_real''
            \<and> float_series (standardize_columns raw) ''days_for_shipment_scheduled''"
    by (simp_all add: end_to_end_scenario_def Let_def)
  from assms have "case (series (standardize_columns raw) ''sales'',
                         series (standardize_columns raw) ''order_profit_per_order'') of
           (Inr (FloatCol ss), Inr (FloatCol ps)) \<Rightarrow>
              list_ex (\<lambda>(s, p). s = Some 0 \<and> p = Some 50) (zip ss ps)
         | _ \<Rightarrow> False"
    by (simp add: end_to_end_scenario_def Let_def)
  then show "\<exists>ss ps. series (standardize_columns raw) ''sales'' = Inr (FloatCol ss)
        \<and> series (standardize_columns raw) ''order_profit_per_order'' = Inr (FloatCol ps)
        \<and> list_ex (\<lambda>(s, p). s = Some 0 \<and> p = Some 50) (zip ss ps)"
    by (rule scenario_sales)
qed

text \<open>
  With ten rows of which two repeat earlier ones, the pipeline need not return eight rows:
  the duplicates are removed after the personal columns are dropped, so two orders that
  differ in the customer only become equal and one of them is removed as well.
\<close>

lemma orders_table_same_sale_scenario:
  "end_to_end_scenario iso_parser orders_table_same_sale"
  by code_simp

lemma orders_table_same_sale_rows:
  "map_sum id (\<lambda>r. nrows (snd r))
        (run_full_cleaning_pipeline orders_files iso_parser ''orders_same_sale.csv'') = Inr 7"
  by code_simp

theorem full_pipeline_scenario_counterexample:
  "end_to_end_scenario iso_parser orders_table_same_sale
   \<and> map_sum id (\<lambda>r. nrows (snd r))
        (run_full_cleaning_pipeline orders_files iso_parser ''orders_same_sale.csv'') = Inr 7"
  using orders_table_same_sale_scenario orders_table_same_sale_rows by (rule conjI)

text \<open>
  C3 (as amended). For every loaded table of the end-to-end scenario (ten rows with two
  exact-duplicate rows, a row with sales 0 and profit 50, valid dates in both date columns,
  the five personal columns), the full cleaning pipeline returns a table with at most
  eight rows (as many as the table has distinct rows once the personal columns are dropped
  and the dates converted), in which \<open>profit_margin_pct\<close> is 0 in every row without sales,
  the row with sales 0 and profit 50 among them, and none of the five personal columns is
  present.
\<close>

theorem full_pipeline_scenario:
  assumes loaded: "files path = Some raw" and sc: "end_to_end_scenario parse raw"
  shows "\<exists>out df'. run_full_cleaning_pipeline files parse path = Inr (out, df')
     \<and> 1 \<le> nrows df' \<and> nrows df' \<le> 8
     \<and> set (labels df') \<inter> set cols_to_drop = {}
     \<and> (\<exists>ss ps ms. series df' ''sales'' = Inr (FloatCol ss)
          \<and> series df' ''order_profit_per_order'' = Inr (FloatCol ps)
          \<and> set (columns_named df' ''profit_margin_pct'') = {FloatCol ms}
          \<and> (\<exists>j<nrows df'. ss ! j = Some 0 \<and> ps ! j = Some 50)
          \<and> (\<forall>j<nrows df'. ss ! j = Some 0 \<longrightarrow> ms ! j = Some 0))
     \<and> (\<exists>o1 dfd o2 dfc. drop_redundant_columns (standardize_columns raw) = Inr (o1, dfd)
          \<and> convert_date_columns parse dfd = Inr (o2, dfc)
          \<and> nrows df' = length (remdups (rows_of dfc)))"
proof -
  define df1 where "df1 = standardize_columns raw"
  define dfd where "dfd = filter (\<lambda>(n, c). n \<notin> set cols_to_drop) df1"
  note f = scenario_facts[OF sc, folded df1_def]
  from f(4) obtain ss ps where
    s1: "series df1 ''sales'' = Inr (FloatCol ss)"
    and p1: "series df1 ''order_profit_per_order'' = Inr (FloatCol ps)"
    and ex: "list_ex (\<lambda>(s, p). s = Some 0 \<and> p = Some 50) (zip ss ps)" by blast
  have wf1: "wf_frame df1" using f(1) by (simp add: df1_def)
  \<comment> \<open>the drop step\<close>
  obtain o1 where drop: "drop_redundant_columns df1 = Inr (o1, dfd)"
    unfolding dfd_def using drop_redundant_columns_eq[of df1] by simp
  have kd: "columns_named dfd n = columns_named df1 n" if "n \<notin> set cols_to_drop" for n
    unfolding dfd_def using that by (rule columns_named_filter_labels)
  have sd: "series dfd ''sales'' = Inr (FloatCol ss)"
    using s1 series_columns_named[OF kd[OF pii_not_used(1)]] by simp
  have pd: "series dfd ''order_profit_per_order'' = Inr (FloatCol ps)"
    using p1 series_columns_named[OF kd[OF pii_not_used(2)]] by simp
  have ned: "dfd \<noteq> []" using sd by (rule series_nonempty)
  have wfd: "wf_frame dfd" unfolding dfd_def using wf1 by (rule wf_filter)
  have nd: "nrows dfd = 10"
    using nrows_filter[OF wf1 ned[unfolded dfd_def]] f(2) by (simp add: dfd_def df1_def)
  have rd: "length (remdups (rows_of dfd)) \<le> 8"
    using remdups_rows_filter[OF wf1, of "\<lambda>(n, c). n \<notin> set cols_to_drop"] f(3)
    by (simp add: dfd_def df1_def)
  have ld: "set (labels dfd) = set (labels df1) - set cols_to_drop"
    unfolding dfd_def by (rule labels_filter_labels)
  \<comment> \<open>the date conversion\<close>
  have ca: "convertible_series dfd ''order_date_dateorders''"
    using valid_dates_convertible[OF f(5)] convertible_series_same[OF kd[OF pii_not_used(3)]]
    by simp
  have cb: "convertible_series dfd ''shipping_date_dateorders''"
    using valid_dates_convertible[OF f(6)] convertible_series_same[OF kd[OF pii_not_used(4)]]
    by simp
  from convert_date_columns_full[OF wfd ca cb, of parse] obtain o2 dfc where
    all: "convert_date_columns parse dfd = Inr (o2, dfc)
     \<and> labels dfc = labels dfd
     \<and> (\<forall>n. n \<noteq> ''order_date_dateorders'' \<and> n \<noteq> ''shipping_date_dateorders''
              \<longrightarrow> columns_named dfc n = columns_named dfd n)
     \<and> wf_frame dfc \<and> nrows dfc = nrows dfd
     \<and> length (remdups (rows_of dfc)) \<le> length (remdups (rows_of dfd))
     \<and> datetime_series dfc ''order_date_dateorders''"
    by (elim exE) 
  from all have conv: "convert_date_columns parse dfd = Inr (o2, dfc)"
    and lc: "labels dfc = labels dfd"
    and wfc: "wf_frame dfc" and nc: "nrows dfc = nrows dfd"
    and rc: "length (remdups (rows_of dfc)) \<le> length (remdups (rows_of dfd))"
    and dc: "datetime_series dfc ''order_date_dateorders''"
    by simp_all
  have kc: "columns_named dfc n = columns_named dfd n"
    if "n \<noteq> ''order_date_dateorders''" "n \<noteq> ''shipping_date_dateorders''" for n
    using all that by simp
  have sc': "series dfc ''sales'' = Inr (FloatCol ss)"
    using sd series_columns_named[OF kc[of "''sales''"]] by simp
  have pc: "series dfc ''order_profit_per_order'' = Inr (FloatCol ps)"
    using pd series_columns_named[OF kc[of "''order_profit_per_order''"]] by simp
  have nec: "dfc \<noteq> []" using sc' by (rule series_nonempty)
  have nc10: "nrows dfc = 10" using nc nd by simp
  \<comment> \<open>the duplicates\<close>
  let ?keep = "first_occurrences (rows_of dfc)"
  let ?dfu = "drop_duplicates dfc"
  obtain o3 where dedup: "remove_duplicates dfc = Inr (o3, ?dfu)"
    using nc10 by (simp add: remove_duplicates_eq)
  have nu: "nrows ?dfu = length (remdups (rows_of dfc))" using nec by (rule nrows_drop_duplicates)
  have nu': "nrows ?dfu = length ?keep"
    using nu by (simp add: length_first_occurrences_remdups)
  have wfu: "wf_frame ?dfu" by (rule wf_drop_duplicates)
  have lu: "labels ?dfu = labels dfc" by (rule labels_drop_duplicates)
  have su: "series ?dfu ''sales'' = Inr (FloatCol (map (\<lambda>i. ss ! i) ?keep))"
    using series_drop_duplicates[OF sc'] by simp
  have pu: "series ?dfu ''order_profit_per_order'' = Inr (FloatCol (map (\<lambda>i. ps ! i) ?keep))"
    using series_drop_duplicates[OF pc] by simp
  \<comment> \<open>the derived features\<close>
  have a: "''days_for_shipping_real'' \<in> set (labels ?dfu)
           \<and> ''days_for_shipment_scheduled'' \<in> set (labels ?dfu)
     \<longrightarrow> float_series ?dfu ''days_for_shipping_real''
       \<and> float_series ?dfu ''days_for_shipment_scheduled''"
    using f(7) lu lc ld
      float_series_same[OF kc[of "''days_for_shipping_real''"]]
      float_series_same[OF kd[OF pii_not_used(5)]]
      float_series_same[OF kc[of "''days_for_shipment_scheduled''"]]
      float_series_same[OF kd[OF pii_not_used(6)]]
    by (simp add: float_series_drop_duplicates)
  have b: "''order_date_dateorders'' \<in> set (labels ?dfu)
     \<longrightarrow> datetime_series ?dfu ''order_date_dateorders''"
    using dc by (simp add: datetime_series_drop_duplicates)
  have c: "''order_profit_per_order'' \<in> set (labels ?dfu) \<and> ''sales'' \<in> set (labels ?dfu)
     \<longrightarrow> float_series ?dfu ''order_profit_per_order'' \<and> float_series ?dfu ''sales''"
    using su pu by (simp add: float_series_iff)
  from add_derived_features_returns[OF a b c] obtain df' where
    feat: "add_derived_features ?dfu = Inr ([AddedMsg], df')" ..
  have "\<exists>out. run_full_cleaning_pipeline files parse path = Inr (out, df')"
    using loaded drop[unfolded df1_def] conv dedup feat by (rule pipeline_Inr)
  then obtain out where
    run: "run_full_cleaning_pipeline files parse path = Inr (out, df')" ..
  have n': "nrows df' = nrows ?dfu" using add_derived_features_wf[OF wfu feat] by simp
  have lab: "set (labels df') \<inter> set cols_to_drop = {}"
  proof -
    have "set (labels ?dfu) \<inter> set cols_to_drop = {}" using lu lc ld by auto
    with add_derived_features_labels[OF feat] pii_not_used show ?thesis by auto
  qed
  \<comment> \<open>the profit margin\<close>
  from profit_margin_column[OF feat series_labels[OF pu] series_labels[OF su]]
  obtain ps' ss' where
    e1: "series ?dfu ''order_profit_per_order'' = Inr (FloatCol ps')"
    and e2: "series ?dfu ''sales'' = Inr (FloatCol ss')"
    and e3: "series df' ''order_profit_per_order'' = Inr (FloatCol ps')"
    and e4: "series df' ''sales'' = Inr (FloatCol ss')"
    and e5: "set (columns_named df' ''profit_margin_pct'')
         = {FloatCol (map2 (\<lambda>b x. if b then x else Some 0) (col_ne0 (FloatCol ss'))
              (map (map_option round2) (map (map_option (\<lambda>x. x * 100))
                 (map2 (lift2 (\<lambda>x y. if y = 0 then None else Some (x / y))) ps' ss'))))}"
    by blast
  let ?ms = "map2 (\<lambda>b x. if b then x else Some 0) (col_ne0 (FloatCol ss'))
              (map (map_option round2) (map (map_option (\<lambda>x. x * 100))
                 (map2 (lift2 (\<lambda>x y. if y = 0 then None else Some (x / y))) ps' ss')))"
  have ss': "ss' = map (\<lambda>i. ss ! i) ?keep" and ps': "ps' = map (\<lambda>i. ps ! i) ?keep"
    using e1 e2 su pu by simp_all
  have lss: "length ss' = nrows df'" and lps: "length ps' = nrows df'"
    using ss' ps' n' nu' by simp_all
  have zero: "\<forall>j<nrows df'. ss' ! j = Some 0 \<longrightarrow> ?ms ! j = Some 0"
    using margin_row[of _ ps' ss'] lss lps by simp
  \<comment> \<open>the zero-sales row is still there\<close>
  from list_ex_zip_nth[OF ex] obtain k where
    k: "k < length ss" "k < length ps" "ss ! k = Some 0" "ps ! k = Some 50" by blast
  have lens: "length ss = nrows dfc" "length ps = nrows dfc"
    using series_len[OF wfc sc'] series_len[OF wfc pc] by simp_all
  have "k < length (rows_of dfc)" using k lens by simp
  from first_occurrence_of_row[OF this] obtain j where
    j: "j < length ?keep" "?keep ! j < length (rows_of dfc)"
       "rows_of dfc ! (?keep ! j) = rows_of dfc ! k" by blast
  have ik: "?keep ! j < nrows dfc" "k < nrows dfc" using j k lens by simp_all
  have "cells (FloatCol ss) ! (?keep ! j) = cells (FloatCol ss) ! k"
    using equal_rows_cells[OF j(3) ik series_mem[OF sc']] .
  then have z1: "ss ! (?keep ! j) = ss ! k"
    using float_cells_eq[of "?keep ! j" ss k] ik lens by simp
  have "cells (FloatCol ps) ! (?keep ! j) = cells (FloatCol ps) ! k"
    using equal_rows_cells[OF j(3) ik series_mem[OF pc]] .
  then have z2: "ps ! (?keep ! j) = ps ! k"
    using float_cells_eq[of "?keep ! j" ps k] ik lens by simp
  have jn: "j < nrows df'" using j n' nu' by simp
  have row: "\<exists>j<nrows df'. ss' ! j = Some 0 \<and> ps' ! j = Some 50"
    using jn j(1) z1 z2 k ss' ps' by (intro exI[of _ j]) simp
  have ge1: "1 \<le> nrows df'" using jn by simp
  have le8: "nrows df' \<le> 8" using n' nu rc rd by simp
  have cnt: "nrows df' = length (remdups (rows_of dfc))" using n' nu by simp
  have last: "\<exists>o1 dfd o2 dfc. drop_redundant_columns (standardize_columns raw) = Inr (o1, dfd)
          \<and> convert_date_columns parse dfd = Inr (o2, dfc)
          \<and> nrows df' = length (remdups (rows_of dfc))"
    using drop conv cnt unfolding df1_def by blast
  have marg: "\<exists>ss ps ms. series df' ''sales'' = Inr (FloatCol ss)
          \<and> series df' ''order_profit_per_order'' = Inr (FloatCol ps)
          \<and> set (columns_named df' ''profit_margin_pct'') = {FloatCol ms}
          \<and> (\<exists>j<nrows df'. ss ! j = Some 0 \<and> ps ! j = Some 50)
          \<and> (\<forall>j<nrows df'. ss ! j = Some 0 \<longrightarrow> ms ! j = Some 0)"
    using e4 e3 e5 row zero by blast
  show ?thesis
    by (rule exI[of _ out], rule exI[of _ df'], intro conjI)
       (fact run ge1 le8 lab marg last)+
qed

lemma orders_table_scenario: "end_to_end_scenario iso_parser orders_table"
  by code_simp

lemma orders_table_distinct_rows:
  "map_sum id (\<lambda>r. length (remdups (rows_of (snd r))))
     (ebind (drop_redundant_columns (standardize_columns orders_table))
        (\<lambda>r. convert_date_columns iso_parser (snd r))) = Inr 8"
  by code_simp

theorem full_pipeline_scenario_witness:
  "\<exists>out df'. run_full_cleaning_pipeline orders_files iso_parser ''orders.csv'' = Inr (out, df')
     \<and> nrows df' = 8
     \<and> set (labels df') \<inter> set cols_to_drop = {}
     \<and> (\<exists>ss ps ms. series df' ''sales'' = Inr (FloatCol ss)
          \<and> series df' ''order_profit_per_order'' = Inr (FloatCol ps)
          \<and> set (columns_named df' ''profit_margin_pct'') = {FloatCol ms}
          \<and> (\<exists>j<nrows df'. ss ! j = Some 0 \<and> ps ! j = Some 50 \<and> ms ! j = Some 0))"
proof -
  have loaded: "orders_files ''orders.csv'' = Some orders_table"
    by (simp add: orders_files_def)
  from full_pipeline_scenario [of orders_files "''orders.csv''" orders_table iso_parser,
      OF loaded orders_table_scenario]
  obtain out df' where all:
    "run_full_cleaning_pipeline orders_files iso_parser ''orders.csv'' = Inr (out, df')
     \<and> 1 \<le> nrows df' \<and> nrows df' \<le> 8
     \<and> set (labels df') \<inter> set cols_to_drop = {}
     \<and> (\<exists>ss ps ms. series df' ''sales'' = Inr (FloatCol ss)
          \<and> series df' ''order_profit_per_order'' = Inr (FloatCol ps)
          \<and> set (columns_named df' ''profit_margin_pct'') = {FloatCol ms}
          \<and> (\<exists>j<nrows df'. ss ! j = Some 0 \<and> ps ! j = Some 50)
          \<and> (\<forall>j<nrows df'. ss ! j = Some 0 \<longrightarrow> ms ! j = Some 0))
     \<and> (\<exists>o1 dfd o2 dfc. drop_redundant_columns (standardize_columns orders_table) = Inr (o1, dfd)
          \<and> convert_date_columns iso_parser dfd = Inr (o2, dfc)
          \<and> nrows df' = length (remdups (rows_of dfc)))"
    by (elim exE)
  note run = all[THEN conjunct1]
  note lab = all[THEN conjunct2, THEN conjunct2, THEN conjunct2, THEN conjunct1]
  note marg = all[THEN conjunct2, THEN conjunct2, THEN conjunct2, THEN conjunct2, THEN conjunct1]
  note cnt = all[THEN conjunct2, THEN conjunct2, THEN conjunct2, THEN conjunct2, THEN conjunct2]
  from cnt obtain o1 dfd o2 dfc where
    dcn: "drop_redundant_columns (standardize_columns orders_table) = Inr (o1, dfd)
          \<and> convert_date_columns iso_parser dfd = Inr (o2, dfc)
          \<and> nrows df' = length (remdups (rows_of dfc))" by (elim exE)
  note d = dcn[THEN conjunct1] and c = dcn[THEN conjunct2, THEN conjunct1]
    and n = dcn[THEN conjunct2, THEN conjunct2]
  have "map_sum id (\<lambda>r. length (remdups (rows_of (snd r))))
     (ebind (drop_redundant_columns (standardize_columns orders_table))
        (\<lambda>r. convert_date_columns iso_parser (snd r))) = Inr (length (remdups (rows_of dfc)))"
    unfolding d ebind_def by (simp add: c)
  then have n8: "nrows df' = 8"
    unfolding orders_table_distinct_rows n by simp
  from marg obtain ss ps ms where mm:
    "series df' ''sales'' = Inr (FloatCol ss)
          \<and> series df' ''order_profit_per_order'' = Inr (FloatCol ps)
          \<and> set (columns_named df' ''profit_margin_pct'') = {FloatCol ms}
          \<and> (\<exists>j<nrows df'. ss ! j = Some 0 \<and> ps ! j = Some 50)
          \<and> (\<forall>j<nrows df'. ss ! j = Some 0 \<longrightarrow> ms ! j = Some 0)"
    by (elim exE)
  note s = mm[THEN conjunct1] and p = mm[THEN conjunct2, THEN conjunct1]
    and m = mm[THEN conjunct2, THEN conjunct2, THEN conjunct1]
    and ex = mm[THEN conjunct2, THEN conjunct2, THEN conjunct2, THEN conjunct1]
    and az = mm[THEN conjunct2, THEN conjunct2, THEN conjunct2, THEN conjunct2]
  from ex obtain j where j: "j < nrows df'" "ss ! j = Some 0" "ps ! j = Some 50" by blast
  with az have "ms ! j = Some 0" by simp
  with j have "\<exists>j<nrows df'. ss ! j = Some 0 \<and> ps ! j = Some 50 \<and> ms ! j = Some 0"
    by blast
  with s p m have "\<exists>ss ps ms. series df' ''sales'' = Inr (FloatCol ss)
          \<and> series df' ''order_profit_per_order'' = Inr (FloatCol ps)
          \<and> set (columns_named df' ''profit_margin_pct'') = {FloatCol ms}
          \<and> (\<exists>j<nrows df'. ss ! j = Some 0 \<and> ps ! j = Some 50 \<and> ms ! j = Some 0)"
    by blast
  with run n8 lab show ?thesis by blast
qed

end
